theory Spec2Isabelle
  imports Main
begin

section \<open>Strings of the JavaScript runtime\<close>

text \<open>
  The pipeline is the Node script \<^verbatim>\<open>scripts/fetch-and-digest.mjs\<close>, whose text follows the
  shell script in \<^verbatim>\<open>scripts/setup-cron.sh\<close>. A JavaScript string is a sequence of UTF-16
  code units; a code unit is modelled as a natural number, so that the non-ASCII members
  of the script's character classes can be written as they are.
  An optional field of an object (\<^verbatim>\<open>undefined\<close> when the property is missing) is an
  \<open>option\<close>; the fields the script reads are strings or missing.
\<close>

type_synonym ustring = "nat list"

definition js :: "string \<Rightarrow> ustring" where
  "js s = map of_char s"

definition orEmpty :: "ustring option \<Rightarrow> ustring" where
  \<comment> \<open>\<^verbatim>\<open>s || ''\<close>\<close>
  "orEmpty s = (case s of None \<Rightarrow> [] | Some t \<Rightarrow> t)"

definition truthy :: "ustring option \<Rightarrow> bool" where
  \<comment> \<open>a missing property and the empty string are falsy\<close>
  "truthy s = (orEmpty s \<noteq> [])"

definition is_upper :: "nat \<Rightarrow> bool" where
  "is_upper c = (65 \<le> c \<and> c \<le> 90)"

definition is_lower :: "nat \<Rightarrow> bool" where
  "is_lower c = (97 \<le> c \<and> c \<le> 122)"

definition is_digit :: "nat \<Rightarrow> bool" where
  "is_digit c = (48 \<le> c \<and> c \<le> 57)"

definition is_alpha :: "nat \<Rightarrow> bool" where
  \<comment> \<open>\<^verbatim>\<open>[a-z]\<close> under the \<^verbatim>\<open>i\<close> flag: without the \<^verbatim>\<open>u\<close> flag only ASCII letters fold into it\<close>
  "is_alpha c = (is_upper c \<or> is_lower c)"

definition is_alnum :: "nat \<Rightarrow> bool" where
  "is_alnum c = (is_alpha c \<or> is_digit c)"

definition is_space :: "nat \<Rightarrow> bool" where
  \<comment> \<open>\<^verbatim>\<open>\s\<close> of a regular expression, also what \<^verbatim>\<open>trim\<close> removes\<close>
  "is_space c = (c \<in> {9, 10, 11, 12, 13, 32, 160, 5760, 8232, 8233, 8239, 8287, 12288, 65279}
                 \<or> (8192 \<le> c \<and> c \<le> 8202))"

definition lower_unit :: "nat \<Rightarrow> nat" where
  "lower_unit c = (if is_upper c then c + 32 else c)"

definition toLowerCase :: "ustring \<Rightarrow> ustring" where
  \<comment> \<open>\<^verbatim>\<open>String.prototype.toLowerCase\<close> on the letters A to Z; the code units of other
      scripts are left as they are\<close>
  "toLowerCase s = map lower_unit s"

fun startsWith :: "ustring \<Rightarrow> ustring \<Rightarrow> bool" where
  "startsWith s [] = True"
| "startsWith [] (p # ps) = False"
| "startsWith (c # cs) (p # ps) = (c = p \<and> startsWith cs ps)"

fun js_includes :: "ustring \<Rightarrow> ustring \<Rightarrow> bool" where
  \<comment> \<open>\<^verbatim>\<open>s.includes(t)\<close>\<close>
  "js_includes [] t = (t = [])"
| "js_includes (c # cs) t = (startsWith (c # cs) t \<or> js_includes cs t)"

fun match_all :: "(ustring \<Rightarrow> nat option) \<Rightarrow> nat \<Rightarrow> ustring \<Rightarrow> ustring list" where
  \<comment> \<open>\<^verbatim>\<open>s.match(/re/g) || []\<close> for an expression whose matches are not empty: \<open>m\<close> gives
      the length of the match that starts at the head of its argument; \<open>skip\<close> counts the
      code units still covered by the last match\<close>
  "match_all m skip [] = []"
| "match_all m (Suc k) (c # cs) = match_all m k cs"
| "match_all m 0 (c # cs) =
     (case m (c # cs) of
        Some (Suc n) \<Rightarrow> take (Suc n) (c # cs) # match_all m n cs
      | _ \<Rightarrow> match_all m 0 cs)"

section \<open>Title similarity\<close>

definition title_noise :: "nat \<Rightarrow> bool" where
  \<comment> \<open>the character class of \<^verbatim>\<open>normalizeTitle\<close>: white space, U+3000, the full-width and
      ASCII colon, comma, full stop, exclamation and question mark, U+3001, U+00B7, the
      dashes U+2014 and U+2013, the hyphen and both ASCII quotes\<close>
  "title_noise c = (is_space c \<or> c \<in> {12288, 65306, 58, 65292, 44, 12290, 46, 65281, 33,
                      65311, 63, 12289, 183, 8212, 8211, 45, 34, 39})"

definition normalizeTitle :: "ustring option \<Rightarrow> ustring" where
  "normalizeTitle t = toLowerCase (filter (\<lambda>c. \<not> title_noise c) (orEmpty t))"

definition is_quantity_unit :: "nat \<Rightarrow> bool" where
  \<comment> \<open>the class of U+4EBF, U+4E07, U+5343, U+767E, \<^verbatim>\<open>kmbgt%\<close> and U+FF05, under the
      \<^verbatim>\<open>i\<close> flag\<close>
  "is_quantity_unit c = (lower_unit c \<in> {20159, 19975, 21315, 30334, 107, 109, 98, 103, 116, 37, 65285})"

definition is_kmbgt :: "nat \<Rightarrow> bool" where
  "is_kmbgt c = (lower_unit c \<in> {107, 109, 98, 103, 116})"

definition is_numpart :: "nat \<Rightarrow> bool" where
  \<comment> \<open>\<^verbatim>\<open>[\d,.]\<close>\<close>
  "is_numpart c = (is_digit c \<or> c = 44 \<or> c = 46)"

definition number_at :: "ustring \<Rightarrow> nat option" where
  \<comment> \<open>\<^verbatim>\<open>\d[\d,.]*[U]+|\$[\d,.]+[kmbgt]*\<close>, with \<open>U\<close> the class of quantity units, at the head of the string; both
      runs are greedy, and giving back part of the first run never helps, since the code
      unit after a shorter run is a digit, comma or full stop\<close>
  "number_at s =
     (case s of
        [] \<Rightarrow> None
      | c # cs \<Rightarrow>
          let run = takeWhile is_numpart cs; rest = dropWhile is_numpart cs in
          if is_digit c then
            (let units = takeWhile is_quantity_unit rest in
             if units = [] then None else Some (1 + length run + length units))
          else if c = 36 then
            (if run = [] then None
             else Some (1 + length run + length (takeWhile is_kmbgt rest)))
          else None)"

definition name_at :: "ustring \<Rightarrow> nat option" where
  \<comment> \<open>\<^verbatim>\<open>[a-z][a-z0-9.]*[a-z0-9]\<close> at the head of the string: the greedy run is given back
      up to its last letter or digit\<close>
  "name_at s =
     (case s of
        [] \<Rightarrow> None
      | c # cs \<Rightarrow>
          if is_alpha c then
            (let run = takeWhile (\<lambda>x. is_alnum x \<or> x = 46) cs;
                 body = rev (dropWhile (\<lambda>x. x = 46) (rev run)) in
             if body = [] then None else Some (1 + length body))
          else None)"

definition is_cjk :: "nat \<Rightarrow> bool" where
  "is_cjk c = (19968 \<le> c \<and> c \<le> 40959)"

definition cnName_at :: "ustring \<Rightarrow> nat option" where
  \<comment> \<open>two to six code units from U+4E00 to U+9FFF\<close>
  "cnName_at s =
     (let run = take 6 (takeWhile is_cjk s) in
      if length run < 2 then None else Some (length run))"

record entities =
  numbers :: "ustring list"
  names :: "ustring list"
  cnNames :: "ustring list"

definition extractKeyEntities :: "ustring option \<Rightarrow> entities" where
  "extractKeyEntities t =
     (let norm = normalizeTitle t in
      \<lparr> numbers = map toLowerCase (match_all number_at 0 norm),
        names = map toLowerCase (match_all name_at 0 norm),
        cnNames = match_all cnName_at 0 norm \<rparr>)"

definition bigrams :: "ustring \<Rightarrow> ustring set" where
  \<comment> \<open>the set of \<^verbatim>\<open>s.slice(i, i + 2)\<close> for \<^verbatim>\<open>i < s.length - 1\<close>\<close>
  "bigrams s = set (map (\<lambda>(x, y). [x, y]) (zip s (tl s)))"

definition namesOverlap :: "ustring \<Rightarrow> ustring \<Rightarrow> bool" where
  \<comment> \<open>\<^verbatim>\<open>n === m || n.includes(m) || m.includes(n)\<close>\<close>
  "namesOverlap n m = (n = m \<or> js_includes n m \<or> js_includes m n)"

definition sharedNames :: "nat \<Rightarrow> entities \<Rightarrow> entities \<Rightarrow> ustring list" where
  \<comment> \<open>\<^verbatim>\<open>ea.names.filter(n => eb.names.some(m => ...))\<close>; the second test asks both names
      to have at least \<open>k = 4\<close> code units, the first asks nothing (\<open>k = 0\<close>)\<close>
  "sharedNames k ea eb =
     filter (\<lambda>n. k \<le> length n \<and> list_ex (\<lambda>m. k \<le> length m \<and> namesOverlap n m) (names eb))
       (names ea)"

definition sharedNums :: "entities \<Rightarrow> entities \<Rightarrow> ustring list" where
  \<comment> \<open>\<^verbatim>\<open>ea.numbers.filter(n => eb.numbers.includes(n))\<close>\<close>
  "sharedNums ea eb = filter (\<lambda>n. List.member (numbers eb) n) (numbers ea)"

definition sameNameAndNumber :: "entities \<Rightarrow> entities \<Rightarrow> bool" where
  \<comment> \<open>same English name and same number: same event\<close>
  "sameNameAndNumber ea eb =
     (names ea \<noteq> [] \<and> names eb \<noteq> [] \<and> numbers ea \<noteq> [] \<and> numbers eb \<noteq> []
      \<and> sharedNames 0 ea eb \<noteq> [] \<and> sharedNums ea eb \<noteq> [])"

definition sameEntityShortTitles :: "entities \<Rightarrow> entities \<Rightarrow> ustring \<Rightarrow> ustring \<Rightarrow> bool" where
  \<comment> \<open>a shared entity name of four code units or more, and both titles short\<close>
  "sameEntityShortTitles ea eb na nb =
     (names ea \<noteq> [] \<and> names eb \<noteq> []
      \<and> sharedNames 4 ea eb \<noteq> [] \<and> length na < 30 \<and> length nb < 30)"

definition bigramsOverlap :: "ustring \<Rightarrow> ustring \<Rightarrow> bool" where
  \<comment> \<open>The last test is \<^verbatim>\<open>intersection / union > 0.35\<close> on doubles; for set sizes below
      \<open>2^50\<close> the rounded quotient exceeds the double nearest to 0.35 exactly when
      \<open>20 * intersection > 7 * union\<close>.\<close>
  "bigramsOverlap na nb =
     (let ba = bigrams na; bb = bigrams nb in
      if card ba = 0 \<or> card bb = 0 then False
      else
        let intersection = card (ba \<inter> bb);
            union = card ba + card bb - intersection in
        0 < union \<and> 7 * union < 20 * intersection)"

definition titlesAreSimilar :: "ustring option \<Rightarrow> ustring option \<Rightarrow> bool" where
  "titlesAreSimilar a b =
     (let na = normalizeTitle a; nb = normalizeTitle b in
      if na = [] \<or> nb = [] then False
      else if na = nb then True
      else if js_includes na nb \<or> js_includes nb na then True
      else
        let ea = extractKeyEntities a; eb = extractKeyEntities b in
        if sameNameAndNumber ea eb then True
        else if sameEntityShortTitles ea eb na nb then True
        else bigramsOverlap na nb)"

section \<open>Push history\<close>

text \<open>
  An item is a JavaScript object; the script reads the properties below, each a string
  or missing. Fetched items carry \<^verbatim>\<open>pubDate\<close>, synthesized items \<^verbatim>\<open>summary\<close> and
  \<^verbatim>\<open>category\<close>.
\<close>

record item =
  title :: "ustring option"
  url :: "ustring option"
  summary :: "ustring option"
  category :: "ustring option"
  pubDate :: "ustring option"

text \<open>
  Two functions of the platform are parameters of the model: \<open>sha\<close> is
  \<^verbatim>\<open>createHash('sha256').update(s).digest('hex')\<close>, and \<open>parseURL\<close> is \<^verbatim>\<open>new URL(s)\<close>,
  giving the \<^verbatim>\<open>hostname\<close> and the \<^verbatim>\<open>pathname\<close> of the parsed URL, or \<open>None\<close> where the
  constructor throws.
\<close>

type_synonym sha256 = "ustring \<Rightarrow> ustring"
type_synonym url_parser = "ustring \<Rightarrow> (ustring \<times> ustring) option"

definition hashStr :: "sha256 \<Rightarrow> ustring \<Rightarrow> ustring" where
  \<comment> \<open>every caller passes a string, on which \<^verbatim>\<open>s || ''\<close> is \<open>s\<close>\<close>
  "hashStr sha s = take 16 (sha s)"

definition stripTrailingSlashes :: "ustring \<Rightarrow> ustring" where
  \<comment> \<open>\<^verbatim>\<open>.replace(/\/+$/, '')\<close>\<close>
  "stripTrailingSlashes s = rev (dropWhile (\<lambda>c. c = 47) (rev s))"

definition urlArgument :: "ustring option \<Rightarrow> ustring" where
  \<comment> \<open>the constructor converts its argument to a string\<close>
  "urlArgument u = (case u of None \<Rightarrow> js ''undefined'' | Some s \<Rightarrow> s)"

definition normalizeUrlForHash :: "url_parser \<Rightarrow> ustring option \<Rightarrow> ustring" where
  "normalizeUrlForHash parseURL u =
     (case parseURL (urlArgument u) of
        Some (hostname, pathname) \<Rightarrow> toLowerCase (stripTrailingSlashes (hostname @ pathname))
      | None \<Rightarrow> toLowerCase (orEmpty u))"

definition titleKey :: "ustring option \<Rightarrow> ustring" where
  \<comment> \<open>\<^verbatim>\<open>(item.title || '').replace(/\s+/g, '').toLowerCase()\<close>\<close>
  "titleKey t = toLowerCase (filter (\<lambda>c. \<not> is_space c) (orEmpty t))"

text \<open>
  The table \<^verbatim>\<open>pushed_items\<close>, with its unique index on \<^verbatim>\<open>url_hash\<close>. The column
  \<^verbatim>\<open>pushed_at\<close> holds \<^verbatim>\<open>datetime('now')\<close>, a UTC time to the second in a format whose
  string order is the order of time: it is modelled as a number of seconds. The
  \<^verbatim>\<open>id\<close> column is never read and is left out.
\<close>

record pushed_row =
  url_hash :: ustring
  title_hash :: ustring
  row_title :: "ustring option"
  row_url :: "ustring option"
  digest_type :: ustring
  pushed_at :: int

datatype db_error = SqliteError | TypeError

datatype database =
    Database "pushed_row list"
  | Unreadable  \<comment> \<open>a handle on which every statement throws\<close>

record history =
  urlHashes :: "ustring set"
  titleHashes :: "ustring set"
  titles :: "ustring list"

definition emptyHistory :: history where
  "emptyHistory = \<lparr> urlHashes = {}, titleHashes = {}, titles = [] \<rparr>"

definition selectPushedSince :: "database option \<Rightarrow> nat \<Rightarrow> int \<Rightarrow> db_error + pushed_row list" where
  \<comment> \<open>\<^verbatim>\<open>db.prepare(SELECT ... WHERE pushed_at >= datetime('now', ?)).all('-H hours')\<close>; the
      handle \<open>None\<close> is \<^verbatim>\<open>null\<close>, on which \<^verbatim>\<open>db.prepare\<close> is a \<^verbatim>\<open>TypeError\<close>\<close>
  "selectPushedSince db hours now =
     (case db of
        None \<Rightarrow> Inl TypeError
      | Some Unreadable \<Rightarrow> Inl SqliteError
      | Some (Database rows) \<Rightarrow> Inr (filter (\<lambda>r. now - int hours * 3600 \<le> pushed_at r) rows))"

definition loadPushedHistory :: "database option \<Rightarrow> nat \<Rightarrow> int \<Rightarrow> db_error + history" where
  \<comment> \<open>the body is a \<^verbatim>\<open>try\<close> whose \<^verbatim>\<open>catch\<close> returns the empty snapshot; \<open>Inl\<close> would be an
      exception leaving the function\<close>
  "loadPushedHistory db hours now =
     (case selectPushedSince db hours now of
        Inr rows \<Rightarrow>
          Inr \<lparr> urlHashes = set (map url_hash rows),
                titleHashes = set (map title_hash rows),
                titles = map orEmpty (filter truthy (map row_title rows)) \<rparr>
      | Inl e \<Rightarrow> Inr emptyHistory)"

definition insertOrIgnore :: "pushed_row \<Rightarrow> pushed_row list \<Rightarrow> pushed_row list" where
  \<comment> \<open>\<^verbatim>\<open>INSERT OR IGNORE\<close> under the unique index on \<^verbatim>\<open>url_hash\<close>\<close>
  "insertOrIgnore r rows =
     (if url_hash r \<in> set (map url_hash rows) then rows else rows @ [r])"

definition pushedRow :: "sha256 \<Rightarrow> url_parser \<Rightarrow> ustring \<Rightarrow> int \<Rightarrow> item \<Rightarrow> pushed_row" where
  "pushedRow sha parseURL digestType now i =
     \<lparr> url_hash = hashStr sha (normalizeUrlForHash parseURL (url i)),
       title_hash = hashStr sha (titleKey (title i)),
       row_title = Some (orEmpty (title i)),
       row_url = Some (orEmpty (url i)),
       digest_type = digestType,
       pushed_at = now \<rparr>"

definition recordRows ::
  "sha256 \<Rightarrow> url_parser \<Rightarrow> ustring \<Rightarrow> int \<Rightarrow> pushed_row list \<Rightarrow> item list \<Rightarrow> pushed_row list" where
  \<comment> \<open>the loop of the transaction: one \<^verbatim>\<open>stmt.run\<close> for each item, in order\<close>
  "recordRows sha parseURL digestType now rows items =
     foldl (\<lambda>rs i. insertOrIgnore (pushedRow sha parseURL digestType now i) rs) rows items"

definition recordPushedItems ::
  "sha256 \<Rightarrow> url_parser \<Rightarrow> database \<Rightarrow> item list \<Rightarrow> ustring \<Rightarrow> int \<Rightarrow> db_error + database" where
  \<comment> \<open>one transaction, whose rows all get the time \<open>now\<close>; there is no \<^verbatim>\<open>try\<close> here\<close>
  "recordPushedItems sha parseURL db items digestType now =
     (case db of
        Unreadable \<Rightarrow> Inl SqliteError
      | Database rows \<Rightarrow> Inr (Database (recordRows sha parseURL digestType now rows items)))"

definition isItemPushedBefore :: "sha256 \<Rightarrow> url_parser \<Rightarrow> history \<Rightarrow> item \<Rightarrow> bool" where
  "isItemPushedBefore sha parseURL h i =
     (let urlHash = hashStr sha (normalizeUrlForHash parseURL (url i)) in
      if urlHash \<in> urlHashes h then True
      else
        let titleHash = hashStr sha (titleKey (title i)) in
        if titleHash \<in> titleHashes h then True
        else if truthy (title i) \<and> 0 < length (titles h)
        then list_ex (\<lambda>pushedTitle. titlesAreSimilar (title i) (Some pushedTitle)) (titles h)
        else False)"

text \<open>
  \<^verbatim>\<open>getPushDbAsync\<close> gives \<^verbatim>\<open>null\<close> when the module does not load, when the database
  file does not exist, or when opening it or creating the table throws; a handle kept
  in \<^verbatim>\<open>_pushDb\<close> by an earlier call is returned as it is.
\<close>

datatype db_file = NoFile | BadFile | GoodFile "pushed_row list"

record push_env =
  cachedDb :: "database option"
  sqliteLoads :: bool
  dbFile :: db_file

definition getPushDbAsync :: "push_env \<Rightarrow> database option" where
  "getPushDbAsync env =
     (case cachedDb env of
        Some db \<Rightarrow> Some db
      | None \<Rightarrow>
          if \<not> sqliteLoads env then None
          else (case dbFile env of
                  NoFile \<Rightarrow> None
                | BadFile \<Rightarrow> None
                | GoodFile rows \<Rightarrow> Some (Database rows)))"

definition mainLoadHistory :: "push_env \<Rightarrow> int \<Rightarrow> db_error + history" where
  \<comment> \<open>step 2.5 of \<^verbatim>\<open>main\<close>: the snapshot starts empty and is loaded over 72 hours when
      there is a handle\<close>
  "mainLoadHistory env now =
     (case getPushDbAsync env of
        None \<Rightarrow> Inr emptyHistory
      | Some db \<Rightarrow> loadPushedHistory (Some db) 72 now)"

section \<open>Deduplication of the synthesized items\<close>

definition hotCategory :: ustring where
  \<comment> \<open>the category of important news, the code units U+91CD U+8981 U+52A8 U+6001\<close>
  "hotCategory = [37325, 35201, 21160, 24577]"

definition isHot :: "item \<Rightarrow> bool" where
  \<comment> \<open>\<^verbatim>\<open>item.category === hotCategory\<close>\<close>
  "isHot i = (category i = Some hotCategory)"

definition normalizeUrl :: "url_parser \<Rightarrow> ustring option \<Rightarrow> ustring" where
  \<comment> \<open>the local function of \<^verbatim>\<open>deduplicateItems\<close>; its \<^verbatim>\<open>catch\<close> returns
      \<^verbatim>\<open>url?.toLowerCase() || ''\<close>\<close>
  "normalizeUrl parseURL u =
     (case parseURL (urlArgument u) of
        Some (hostname, pathname) \<Rightarrow> toLowerCase (stripTrailingSlashes (hostname @ pathname))
      | None \<Rightarrow> (case u of None \<Rightarrow> [] | Some s \<Rightarrow> toLowerCase s))"

text \<open>
  \<^verbatim>\<open>seen\<close> is a \<^verbatim>\<open>Map\<close> from normalized URL to item, iterated in insertion order: an
  association list with distinct keys. \<^verbatim>\<open>result.indexOf\<close> compares objects by identity;
  the model compares items by their fields, which finds the same position as long as
  no two entries of \<^verbatim>\<open>result\<close> have equal fields.
\<close>

type_synonym seen_map = "(ustring \<times> item) list"

definition mapSet :: "ustring \<Rightarrow> item \<Rightarrow> seen_map \<Rightarrow> seen_map" where
  \<comment> \<open>\<^verbatim>\<open>seen.set(k, v)\<close>: a key already present keeps its place\<close>
  "mapSet k v seen =
     (if k \<in> set (map fst seen) then map (\<lambda>(k', v'). if k' = k then (k', v) else (k', v')) seen
      else seen @ [(k, v)])"

definition mapDelete :: "ustring \<Rightarrow> seen_map \<Rightarrow> seen_map" where
  "mapDelete k seen = filter (\<lambda>(k', v'). k' \<noteq> k) seen"

fun replaceFirst :: "item \<Rightarrow> item \<Rightarrow> item list \<Rightarrow> item list" where
  \<comment> \<open>\<^verbatim>\<open>idx = result.indexOf(old); if (idx !== -1) result[idx] = new\<close>\<close>
  "replaceFirst old new [] = []"
| "replaceFirst old new (x # xs) = (if x = old then new # xs else x # replaceFirst old new xs)"

definition dedupStep :: "url_parser \<Rightarrow> seen_map \<times> item list \<Rightarrow> item \<Rightarrow> seen_map \<times> item list" where
  \<comment> \<open>the body of the loop over \<^verbatim>\<open>items\<close>\<close>
  "dedupStep parseURL st i =
     (let seen = fst st; result = snd st; normUrl = normalizeUrl parseURL (url i) in
      case map_of seen normUrl of
        Some existing \<Rightarrow>
          if isHot i \<and> \<not> isHot existing
          then (mapSet normUrl i seen, replaceFirst existing i result)
          else (seen, result)
      | None \<Rightarrow>
          (case find (\<lambda>e. titlesAreSimilar (title i) (title (snd e))) seen of
             Some e \<Rightarrow>
               if isHot i \<and> \<not> isHot (snd e)
               then (mapSet normUrl i (mapDelete (fst e) seen), replaceFirst (snd e) i result)
               else (seen, result)
           | None \<Rightarrow> (mapSet normUrl i seen, result @ [i])))"

definition deduplicateItems :: "url_parser \<Rightarrow> item list \<Rightarrow> item list" where
  "deduplicateItems parseURL items = snd (foldl (dedupStep parseURL) ([], []) items)"

definition urlKey :: "url_parser \<Rightarrow> item \<Rightarrow> ustring" where
  "urlKey P i = normalizeUrl P (url i)"

definition dedupInv :: "url_parser \<Rightarrow> seen_map \<times> item list \<Rightarrow> bool" where
  \<comment> \<open>what the loop keeps true of \<^verbatim>\<open>seen\<close> and \<^verbatim>\<open>result\<close>: the entries of \<^verbatim>\<open>result\<close> have
      distinct normalized URLs, which are the keys of \<^verbatim>\<open>seen\<close>, and \<^verbatim>\<open>seen\<close> maps the
      normalized URL of an entry of \<^verbatim>\<open>result\<close> to that entry\<close>
  "dedupInv P st =
     (distinct (map (urlKey P) (snd st))
      \<and> urlKey P ` set (snd st) = fst ` set (fst st)
      \<and> (\<forall>e \<in> set (fst st). fst e = urlKey P (snd e) \<and> snd e \<in> set (snd st)))"

section \<open>The digest synthesizer\<close>

subsection \<open>Candidate texts\<close>

definition trim :: "ustring \<Rightarrow> ustring" where
  "trim s = rev (dropWhile is_space (rev (dropWhile is_space s)))"

definition rtrim :: "ustring \<Rightarrow> ustring" where
  "rtrim s = rev (dropWhile is_space (rev s))"

definition endsWith :: "ustring \<Rightarrow> ustring \<Rightarrow> bool" where
  "endsWith s t = startsWith (rev s) (rev t)"

definition stripFenceStart :: "ustring \<Rightarrow> ustring" where
  \<comment> \<open>\<^verbatim>\<open>.replace(/^```(?:json)?\s*/i, '')\<close>\<close>
  "stripFenceStart s =
     (if startsWith s (js ''```'') then
        (let r = drop 3 s;
             r' = (if toLowerCase (take 4 r) = js ''json'' then drop 4 r else r)
         in dropWhile is_space r')
      else s)"

definition stripFenceEnd :: "ustring \<Rightarrow> ustring" where
  \<comment> \<open>\<^verbatim>\<open>.replace(/\s*```\s*$/, '')\<close>: the match starts at the white space before the
      last fence, when only white space follows that fence\<close>
  "stripFenceEnd s =
     (let t = rtrim s in
      if endsWith t (js ''```'') then rtrim (take (length t - 3) t) else s)"

definition stripped :: "ustring \<Rightarrow> ustring" where
  "stripped rawContent = trim (stripFenceEnd (stripFenceStart rawContent))"

definition uptoLastBracket :: "ustring \<Rightarrow> ustring option" where
  \<comment> \<open>the text up to its last \<^verbatim>\<open>]\<close>, when no \<^verbatim>\<open>}\<close> follows that bracket: what
      \<^verbatim>\<open>\][^}\]]*$\<close> finds\<close>
  "uptoLastBracket s =
     (let tail = takeWhile (\<lambda>c. c \<noteq> 93) (rev s) in
      if 93 \<notin> set s \<or> 125 \<in> set tail then None
      else Some (take (length s - length tail) s))"

definition extracted :: "ustring \<Rightarrow> ustring" where
  \<comment> \<open>\<^verbatim>\<open>.replace(/^[^[]*(\[[\s\S]*\])[^}\]]*$/, '$1').trim()\<close>: from the first \<^verbatim>\<open>[\<close> to the
      last \<^verbatim>\<open>]\<close>\<close>
  "extracted rawContent =
     trim (case uptoLastBracket (dropWhile (\<lambda>c. c \<noteq> 91) rawContent) of
             None \<Rightarrow> rawContent
           | Some t \<Rightarrow> if length t < 2 then rawContent else t)"

definition aggressive :: "ustring \<Rightarrow> ustring" where
  \<comment> \<open>\<^verbatim>\<open>.replace(/^[\s\S]*?(?=\[)/, '').replace(/\][^}\]]*$/, ']').trim()\<close>\<close>
  "aggressive rawContent =
     (let a = (if 91 \<in> set rawContent then dropWhile (\<lambda>c. c \<noteq> 91) rawContent else rawContent)
      in trim (case uptoLastBracket a of None \<Rightarrow> a | Some t \<Rightarrow> t))"

fun afterFirst :: "ustring \<Rightarrow> ustring \<Rightarrow> ustring option" where
  \<comment> \<open>what follows the first occurrence of \<open>pat\<close>\<close>
  "afterFirst pat [] = (if pat = [] then Some [] else None)"
| "afterFirst pat (c # cs) =
     (if startsWith (c # cs) pat then Some (drop (length pat) (c # cs)) else afterFirst pat cs)"

definition singleObj :: "ustring \<Rightarrow> ustring" where
  \<comment> \<open>\<^verbatim>\<open>rawContent.match(/\{[\s\S]*"title"[\s\S]*"url"[\s\S]*\}/)\<close>, wrapped in brackets: the
      match runs from the first \<^verbatim>\<open>{\<close> to the last \<^verbatim>\<open>}\<close>\<close>
  "singleObj rawContent =
     (let fromBrace = dropWhile (\<lambda>c. c \<noteq> 123) rawContent in
      case fromBrace of
        [] \<Rightarrow> []
      | b # inside \<Rightarrow>
          (case afterFirst ([34] @ js ''title'' @ [34]) inside of
             None \<Rightarrow> []
           | Some r1 \<Rightarrow>
               (case afterFirst ([34] @ js ''url'' @ [34]) r1 of
                  None \<Rightarrow> []
                | Some r2 \<Rightarrow>
                    if 125 \<in> set r2
                    then [91] @ rev (dropWhile (\<lambda>c. c \<noteq> 125) (rev fromBrace)) @ [93]
                    else [])))"

subsection \<open>Quote repair\<close>

definition replaceCurlyQuotes :: "ustring \<Rightarrow> ustring" where
  \<comment> \<open>U+201C, U+201D, U+201E, U+2033 and U+FF02 each become a backslash and a quote\<close>
  "replaceCurlyQuotes s =
     concat (map (\<lambda>c. if c \<in> {8220, 8221, 8222, 8243, 65282} then [92, 34] else [c]) s)"

fun splitLines :: "ustring \<Rightarrow> ustring list" where
  \<comment> \<open>\<^verbatim>\<open>.split('\n')\<close>\<close>
  "splitLines [] = [[]]"
| "splitLines (c # cs) =
     (if c = 10 then [] # splitLines cs
      else (case splitLines cs of l # ls \<Rightarrow> (c # l) # ls | [] \<Rightarrow> [[c]]))"

fun joinLines :: "ustring list \<Rightarrow> ustring" where
  \<comment> \<open>\<^verbatim>\<open>.join('\n')\<close>\<close>
  "joinLines [] = []"
| "joinLines [l] = l"
| "joinLines (l # ls) = l @ [10] @ joinLines ls"

fun escapeQuotes :: "nat option \<Rightarrow> ustring \<Rightarrow> ustring" where
  \<comment> \<open>\<^verbatim>\<open>value.replace(/(?<!\\)"/g, '\\"')\<close>; \<open>prev\<close> is the code unit before, in \<^verbatim>\<open>value\<close>\<close>
  "escapeQuotes prev [] = []"
| "escapeQuotes prev (c # cs) =
     (if c = 34 \<and> prev \<noteq> Some 92 then [92, 34] else [c]) @ escapeQuotes (Some c) cs"

definition is_line_terminator :: "nat \<Rightarrow> bool" where
  \<comment> \<open>what \<^verbatim>\<open>.\<close> does not match\<close>
  "is_line_terminator c = (c \<in> {10, 13, 8232, 8233})"

definition keyPrefixLength :: "ustring \<Rightarrow> nat option" where
  \<comment> \<open>the length of the match of \<^verbatim>\<open>^\s*"(?:title|url|summary|category|source)"\s*:\s*"\<close>\<close>
  "keyPrefixLength line =
     (let l1 = dropWhile is_space line in
      case l1 of
        [] \<Rightarrow> None
      | q # l2 \<Rightarrow>
          if q \<noteq> 34 then None
          else
            (case find (\<lambda>k. startsWith l2 (k @ [34]))
                    [js ''title'', js ''url'', js ''summary'', js ''category'', js ''source''] of
               None \<Rightarrow> None
             | Some k \<Rightarrow>
                 (let l3 = dropWhile is_space (drop (length k + 1) l2) in
                  case l3 of
                    [] \<Rightarrow> None
                  | colon # l4 \<Rightarrow>
                      if colon \<noteq> 58 then None
                      else
                        (let l5 = dropWhile is_space l4 in
                         case l5 of
                           [] \<Rightarrow> None
                         | q2 # l6 \<Rightarrow>
                             if q2 \<noteq> 34 then None else Some (length line - length l6)))))"

definition fixLine :: "ustring \<Rightarrow> ustring" where
  \<comment> \<open>one line under \<^verbatim>\<open>keyPattern\<close>: after the prefix, the value runs to the last quote of
      the line, which only a comma and white space may follow\<close>
  "fixLine line =
     (case keyPrefixLength line of
        None \<Rightarrow> line
      | Some n \<Rightarrow>
          (let prefix = take n line; rest = drop n line;
               tail = rev (takeWhile (\<lambda>c. c \<noteq> 34) (rev rest));
               afterComma = (case tail of [] \<Rightarrow> [] | c # cs \<Rightarrow> if c = 44 then cs else tail)
           in
           if 34 \<notin> set rest \<or> \<not> list_all is_space afterComma then line
           else
             (let v = take (length rest - length tail - 1) rest;
                  suffix = drop (length rest - length tail - 1) rest;
                  fixed = escapeQuotes None v
              in
              if list_ex is_line_terminator v then line
              else if fixed \<noteq> v then prefix @ fixed @ suffix else line)))"

definition fixLlmJsonQuotes :: "ustring \<Rightarrow> ustring" where
  "fixLlmJsonQuotes text = joinLines (map fixLine (splitLines (replaceCurlyQuotes text)))"

definition jsonCandidates :: "ustring \<Rightarrow> ustring list" where
  \<comment> \<open>the base candidates that are not empty, each followed by its repaired text when
      the repair changes it\<close>
  "jsonCandidates rawContent =
     concat (map (\<lambda>c. if fixLlmJsonQuotes c \<noteq> c then [c, fixLlmJsonQuotes c] else [c])
       (filter (\<lambda>c. c \<noteq> [])
          [rawContent, stripped rawContent, extracted rawContent, aggressive rawContent,
           singleObj rawContent]))"

subsection \<open>Parsed values and valid items\<close>

datatype json =
    JNull
  | JBool bool
  | JNumber ustring
  | JString ustring
  | JArray "json list"
  | JObject "(ustring \<times> json) list"

text \<open>\<^verbatim>\<open>JSON.parse\<close> is a parameter: \<open>None\<close> where it throws a \<^verbatim>\<open>SyntaxError\<close>.\<close>

type_synonym json_parser = "ustring \<Rightarrow> json option"

definition numberIsZero :: "ustring \<Rightarrow> bool" where
  \<comment> \<open>a number literal is zero when every digit of its mantissa is 0; this is exact on
      the literals that do not round to zero (\<^verbatim>\<open>1e-400\<close> does, and is falsy in the script)\<close>
  "numberIsZero n = list_all (\<lambda>c. c = 48 \<or> \<not> is_digit c) (takeWhile (\<lambda>c. c \<noteq> 101 \<and> c \<noteq> 69) n)"

definition jsonTruthy :: "json option \<Rightarrow> bool" where
  \<comment> \<open>the truth value of a property; \<open>None\<close> is \<^verbatim>\<open>undefined\<close>\<close>
  "jsonTruthy v =
     (case v of
        None \<Rightarrow> False
      | Some JNull \<Rightarrow> False
      | Some (JBool b) \<Rightarrow> b
      | Some (JNumber n) \<Rightarrow> \<not> numberIsZero n
      | Some (JString s) \<Rightarrow> s \<noteq> []
      | Some (JArray xs) \<Rightarrow> True
      | Some (JObject kvs) \<Rightarrow> True)"

definition property :: "json \<Rightarrow> ustring \<Rightarrow> json option" where
  \<comment> \<open>\<^verbatim>\<open>v.key\<close> on a value that is not \<^verbatim>\<open>null\<close>: the last member of that name in an
      object, \<^verbatim>\<open>undefined\<close> on any other value\<close>
  "property v key = (case v of JObject kvs \<Rightarrow> map_of (rev kvs) key | _ \<Rightarrow> None)"

definition isValidElement :: "json \<Rightarrow> bool" where
  \<comment> \<open>\<^verbatim>\<open>i.title && i.url && i.summary\<close>\<close>
  "isValidElement v =
     (jsonTruthy (property v (js ''title'')) \<and> jsonTruthy (property v (js ''url''))
      \<and> jsonTruthy (property v (js ''summary'')))"

definition textField :: "json option \<Rightarrow> ustring option option" where
  \<comment> \<open>a property as an item field; \<open>None\<close> when the value is neither a string nor missing
      nor \<^verbatim>\<open>null\<close>, which the items of this model do not hold\<close>
  "textField v =
     (case v of
        None \<Rightarrow> Some None
      | Some JNull \<Rightarrow> Some None
      | Some (JString s) \<Rightarrow> Some (Some s)
      | Some other \<Rightarrow> None)"

definition toItem :: "json \<Rightarrow> item option" where
  "toItem v =
     (case (textField (property v (js ''title'')), textField (property v (js ''url'')),
            textField (property v (js ''summary'')), textField (property v (js ''category''))) of
        (Some t, Some u, Some s, Some c) \<Rightarrow>
          Some \<lparr> title = t, url = u, summary = s, category = c, pubDate = None \<rparr>
      | _ \<Rightarrow> None)"

definition validItem :: "item \<Rightarrow> bool" where
  \<comment> \<open>what the filter asks of an element, on an item\<close>
  "validItem i = (truthy (title i) \<and> truthy (url i) \<and> truthy (summary i))"

datatype attempt = Rejected | Accepted "item list" | NotModelled

definition tryCandidate :: "json_parser \<Rightarrow> ustring \<Rightarrow> attempt" where
  \<comment> \<open>the body of the \<^verbatim>\<open>try\<close>: a \<^verbatim>\<open>SyntaxError\<close>, the \<^verbatim>\<open>TypeError\<close> of reading a property of
      \<^verbatim>\<open>null\<close>, and an empty list of valid elements all lead to the next candidate\<close>
  "tryCandidate parseJSON candidate =
     (case parseJSON candidate of
        None \<Rightarrow> Rejected
      | Some parsed \<Rightarrow>
          (let items = (case parsed of JArray xs \<Rightarrow> xs | v \<Rightarrow> [v]) in
           if JNull \<in> set items then Rejected
           else
             (let valid = filter isValidElement items in
              if valid = [] then Rejected
              else if list_all (\<lambda>v. toItem v \<noteq> None) valid
              then Accepted (map (\<lambda>v. the (toItem v)) valid)
              else NotModelled)))"

fun firstAccepted :: "json_parser \<Rightarrow> ustring list \<Rightarrow> attempt" where
  \<comment> \<open>the loop over the candidates, up to its \<^verbatim>\<open>break\<close>\<close>
  "firstAccepted parseJSON [] = Rejected"
| "firstAccepted parseJSON (c # cs) =
     (case tryCandidate parseJSON c of
        Rejected \<Rightarrow> firstAccepted parseJSON cs
      | a \<Rightarrow> a)"

text \<open>
  The language model is a parameter: \<open>llm\<close> gives the \<^verbatim>\<open>content\<close> of the first choice for
  the prompt built from the fetched items and the digest type (\<open>None\<close> when the response
  has none), or the error that rejects \<^verbatim>\<open>callDeepSeek\<close>. The markdown body is built from
  the structured items and is left out.
\<close>

datatype digest_error = RequestFailed | EmptyContent | OutsideModel

datatype digest = RawText ustring | Structured "item list"

type_synonym language_model = "item list \<Rightarrow> ustring \<Rightarrow> digest_error + ustring option"

definition generateDigest ::
  "json_parser \<Rightarrow> url_parser \<Rightarrow> language_model \<Rightarrow> item list \<Rightarrow> ustring \<Rightarrow> digest_error + digest" where
  "generateDigest parseJSON parseURL llm allItems digestType =
     (case llm allItems digestType of
        Inl e \<Rightarrow> Inl e
      | Inr content \<Rightarrow>
          (let rawContent = trim (orEmpty content) in
           if rawContent = [] then Inl EmptyContent
           else
             (case firstAccepted parseJSON (jsonCandidates rawContent) of
                Rejected \<Rightarrow> Inr (RawText rawContent)
              | NotModelled \<Rightarrow> Inl OutsideModel
              | Accepted structuredItems \<Rightarrow>
                  Inr (Structured (deduplicateItems parseURL structuredItems)))))"

section \<open>Deduplication before synthesis\<close>

text \<open>
  The date parser of the platform is a parameter: \<open>parseDate\<close> is \<^verbatim>\<open>new Date(s).getTime()\<close>
  in milliseconds, \<open>None\<close> where it is \<^verbatim>\<open>NaN\<close>.
\<close>

type_synonym date_parser = "ustring \<Rightarrow> int option"

definition parseInt10 :: "ustring \<Rightarrow> int option" where
  \<comment> \<open>\<^verbatim>\<open>parseInt(s, 10)\<close>: leading white space, a sign, then the longest run of digits;
      \<open>None\<close> is \<^verbatim>\<open>NaN\<close>. The value is exact below \<open>2^53\<close>.\<close>
  "parseInt10 s =
     (let t = dropWhile is_space s;
          negative = (t \<noteq> [] \<and> hd t = 45);
          u = (if t \<noteq> [] \<and> (hd t = 45 \<or> hd t = 43) then tl t else t);
          digits = takeWhile is_digit u;
          magnitude = foldl (\<lambda>v c. 10 * v + (int c - 48)) 0 digits
      in if digits = [] then None else Some (if negative then - magnitude else magnitude))"

definition MAX_ARTICLE_AGE_HOURS :: "ustring option \<Rightarrow> ustring option \<Rightarrow> int option" where
  \<comment> \<open>\<^verbatim>\<open>parseInt(env.MAX_ARTICLE_AGE_HOURS || process.env.MAX_ARTICLE_AGE_HOURS || '72', 10)\<close>\<close>
  "MAX_ARTICLE_AGE_HOURS fromFile fromProcess =
     parseInt10 (if truthy fromFile then orEmpty fromFile
                 else if truthy fromProcess then orEmpty fromProcess
                 else js ''72'')"

definition stripHttpWww :: "ustring \<Rightarrow> ustring" where
  \<comment> \<open>\<^verbatim>\<open>.replace(/^https?:\/\/(www\.)?/, '')\<close>, which has no \<^verbatim>\<open>i\<close> flag\<close>
  "stripHttpWww s =
     (let rest = (if startsWith s (js ''https://'') then Some (drop 8 s)
                  else if startsWith s (js ''http://'') then Some (drop 7 s)
                  else None)
      in case rest of
           None \<Rightarrow> s
         | Some r \<Rightarrow> if startsWith r (js ''www.'') then drop 4 r else r)"

definition batchNormUrl :: "ustring option \<Rightarrow> ustring" where
  \<comment> \<open>\<^verbatim>\<open>normUrl\<close> of the loop in \<^verbatim>\<open>main\<close>\<close>
  "batchNormUrl u =
     (if truthy u then toLowerCase (stripHttpWww (stripTrailingSlashes (orEmpty u))) else [])"

record pre_state =
  seenUrls :: "ustring set"
  dedupedItems :: "item list"
  historySkipped :: nat
  staleSkipped :: nat

definition isStale :: "date_parser \<Rightarrow> int \<Rightarrow> int option \<Rightarrow> item \<Rightarrow> bool" where
  \<comment> \<open>the test of the loop: \<open>now\<close> and \<open>pubTime\<close> are milliseconds; a comparison with \<^verbatim>\<open>NaN\<close>
      is false\<close>
  "isStale parseDate now maxAgeHours i =
     (if truthy (pubDate i) then
        (case parseDate (orEmpty (pubDate i)) of
           None \<Rightarrow> False
         | Some pubTime \<Rightarrow>
             (case maxAgeHours of
                None \<Rightarrow> False
              | Some h \<Rightarrow> h * 3600 * 1000 < now - pubTime))
      else False)"

definition preDedupStep ::
  "sha256 \<Rightarrow> url_parser \<Rightarrow> date_parser \<Rightarrow> database option \<Rightarrow> history \<Rightarrow> int \<Rightarrow> int option
     \<Rightarrow> pre_state \<Rightarrow> item \<Rightarrow> pre_state" where
  "preDedupStep sha parseURL parseDate pushDb pushHistory now maxAgeHours st i =
     (if isStale parseDate now maxAgeHours i then st \<lparr> staleSkipped := staleSkipped st + 1 \<rparr>
      else
        (let normUrl = batchNormUrl (url i) in
         if normUrl \<noteq> [] \<and> normUrl \<in> seenUrls st then st
         else
           (let st' = (if normUrl \<noteq> [] then st \<lparr> seenUrls := insert normUrl (seenUrls st) \<rparr> else st)
            in if pushDb \<noteq> None \<and> isItemPushedBefore sha parseURL pushHistory i
               then st' \<lparr> historySkipped := historySkipped st' + 1 \<rparr>
               else st' \<lparr> dedupedItems := dedupedItems st' @ [i] \<rparr>)))"

definition preDedup ::
  "sha256 \<Rightarrow> url_parser \<Rightarrow> date_parser \<Rightarrow> database option \<Rightarrow> history \<Rightarrow> int \<Rightarrow> int option
     \<Rightarrow> item list \<Rightarrow> pre_state" where
  \<comment> \<open>step 2.6 of \<^verbatim>\<open>main\<close>\<close>
  "preDedup sha parseURL parseDate pushDb pushHistory now maxAgeHours allItems =
     foldl (preDedupStep sha parseURL parseDate pushDb pushHistory now maxAgeHours)
       \<lparr> seenUrls = {}, dedupedItems = [], historySkipped = 0, staleSkipped = 0 \<rparr> allItems"

section \<open>A URL parser for the examples\<close>

text \<open>
  \<open>URL_simple\<close> stands for \<^verbatim>\<open>new URL(s)\<close> on two kinds of strings only, the ones the
  concrete examples use. A string with no scheme (the empty string, \<^verbatim>\<open>undefined\<close>) makes
  the constructor throw. A plain URL \<^verbatim>\<open>scheme://host/path\<close> is read as written: the scheme
  is \<^verbatim>\<open>http\<close> or \<^verbatim>\<open>https\<close> in either case; the host is a plain host name (\<open>plainHost\<close>
  below), whose labels are separated by single dots, each label not empty, starting with
  an ASCII letter, made of ASCII letters, digits and hyphens, and not starting with
  \<^verbatim>\<open>xn--\<close>; the path is a plain path (\<open>plainPath\<close> below), empty or starting with a slash,
  made of ASCII letters, digits, hyphens, underscores and slashes. On a plain URL the
  \<^verbatim>\<open>hostname\<close> is the host name in lower case and the \<^verbatim>\<open>pathname\<close> is the path, or \<^verbatim>\<open>/\<close>
  when there is none.

  Nothing is claimed of \<open>URL_simple\<close> on any other string. The constructor reads a host
  whose last label is a number as an IPv4 address (\<^verbatim>\<open>http://1/a\<close> has the host name
  \<^verbatim>\<open>0.0.0.1\<close>) and throws when it is not one (\<^verbatim>\<open>example.1\<close>, \<^verbatim>\<open>1.2.3.256\<close>); it decodes a
  label that starts with \<^verbatim>\<open>xn--\<close> and throws when the label is not valid; it resolves dot
  segments, percent-encodes the path, and splits off ports, credentials, queries and
  fragments. None of this is modelled, so every general statement about the constructor
  takes the parser as a parameter, with what it has to return as a hypothesis
  (\<open>readsPlainUrl\<close> below), and \<open>URL_simple\<close> is evaluated on plain URLs and on strings
  with no scheme only.
\<close>

definition afterScheme :: "ustring \<Rightarrow> ustring option" where
  "afterScheme s =
     (if toLowerCase (take 7 s) = js ''http://'' then Some (drop 7 s)
      else if toLowerCase (take 8 s) = js ''https://'' then Some (drop 8 s)
      else None)"

definition URL_simple :: url_parser where
  "URL_simple s =
     (case afterScheme s of
        None \<Rightarrow> None
      | Some rest \<Rightarrow>
          let host = takeWhile (\<lambda>c. c \<noteq> 47) rest; path = dropWhile (\<lambda>c. c \<noteq> 47) rest in
          if host = [] then None
          else Some (toLowerCase host, if path = [] then [47] else path))"

definition is_path_unit :: "nat \<Rightarrow> bool" where
  \<comment> \<open>the code units of a plain path\<close>
  "is_path_unit c = (is_alnum c \<or> c = 45 \<or> c = 95 \<or> c = 47)"

fun splitDots :: "ustring \<Rightarrow> ustring list" where
  \<comment> \<open>the labels of a host name, which single dots separate\<close>
  "splitDots [] = [[]]"
| "splitDots (c # cs) =
     (if c = 46 then [] # splitDots cs
      else (case splitDots cs of l # ls \<Rightarrow> (c # l) # ls | [] \<Rightarrow> [[c]]))"

definition plainLabel :: "ustring \<Rightarrow> bool" where
  \<comment> \<open>a label that starts with a letter is not a number, so the host is not read as an
      IPv4 address; a label that does not start with \<^verbatim>\<open>xn--\<close> is not decoded\<close>
  "plainLabel l =
     (l \<noteq> [] \<and> is_alpha (hd l) \<and> list_all (\<lambda>c. is_alnum c \<or> c = 45) l
      \<and> toLowerCase (take 4 l) \<noteq> js ''xn--'')"

definition plainHost :: "ustring \<Rightarrow> bool" where
  "plainHost h = list_all plainLabel (splitDots h)"

definition plainPath :: "ustring \<Rightarrow> bool" where
  "plainPath p = ((p = [] \<or> hd p = 47) \<and> list_all is_path_unit p)"

definition isHttpScheme :: "ustring \<Rightarrow> bool" where
  "isHttpScheme s = (toLowerCase s = js ''http'' \<or> toLowerCase s = js ''https'')"

definition readsPlainUrl :: "url_parser \<Rightarrow> ustring \<Rightarrow> ustring \<Rightarrow> ustring \<Rightarrow> bool" where
  \<comment> \<open>what the constructor returns on the plain URL with scheme \<open>s\<close>, host \<open>h\<close> and path
      \<open>q\<close>: the host name in lower case, and the path as written or \<^verbatim>\<open>/\<close>\<close>
  "readsPlainUrl parseURL s h q =
     (parseURL (s @ js ''://'' @ h @ q) = Some (toLowerCase h, if q = [] then [47] else q))"

section \<open>A JSON parser for the examples\<close>

text \<open>
  \<open>JSON_parse\<close> is \<^verbatim>\<open>JSON.parse\<close> by the grammar of ECMA-404: a scanner that reads one
  code unit at a time, and a stack machine over its tokens. A number keeps its text.
\<close>

datatype token =
    TLBrace | TRBrace | TLBracket | TRBracket | TColon | TComma
  | TString ustring | TNumber ustring | TWord ustring

datatype scan_state =
    ScanStart
  | ScanString ustring            \<comment> \<open>inside a string; the code units so far, last first\<close>
  | ScanEscape ustring            \<comment> \<open>after a backslash\<close>
  | ScanUnicode ustring "nat list" \<comment> \<open>after \<^verbatim>\<open>\u\<close>, with the hexadecimal digits read\<close>
  | ScanNumber ustring
  | ScanWord ustring

definition hexValue :: "nat \<Rightarrow> nat option" where
  "hexValue c =
     (if is_digit c then Some (c - 48)
      else if 97 \<le> c \<and> c \<le> 102 then Some (c - 87)
      else if 65 \<le> c \<and> c \<le> 70 then Some (c - 55)
      else None)"

definition unescape :: "nat \<Rightarrow> nat option" where
  "unescape c =
     (if c = 34 \<or> c = 92 \<or> c = 47 then Some c
      else if c = 98 then Some 8
      else if c = 102 then Some 12
      else if c = 110 then Some 10
      else if c = 114 then Some 13
      else if c = 116 then Some 9
      else None)"

definition validNumber :: "ustring \<Rightarrow> bool" where
  \<comment> \<open>\<^verbatim>\<open>-?(0|[1-9][0-9]*)(\.[0-9]+)?([eE][+-]?[0-9]+)?\<close>\<close>
  "validNumber s =
     (let s1 = (if s \<noteq> [] \<and> hd s = 45 then tl s else s);
          whole = takeWhile is_digit s1; r1 = dropWhile is_digit s1;
          hasFraction = (r1 \<noteq> [] \<and> hd r1 = 46);
          fraction = takeWhile is_digit (tl r1);
          r2 = (if hasFraction then dropWhile is_digit (tl r1) else r1);
          hasExponent = (r2 \<noteq> [] \<and> (hd r2 = 101 \<or> hd r2 = 69));
          r3 = tl r2;
          exponent = (if r3 \<noteq> [] \<and> (hd r3 = 43 \<or> hd r3 = 45) then tl r3 else r3)
      in whole \<noteq> [] \<and> (hd whole \<noteq> 48 \<or> length whole = 1)
         \<and> (hasFraction \<longrightarrow> fraction \<noteq> [])
         \<and> (if hasExponent then exponent \<noteq> [] \<and> list_all is_digit exponent else r2 = []))"

definition validWord :: "ustring \<Rightarrow> bool" where
  "validWord w = (w = js ''true'' \<or> w = js ''false'' \<or> w = js ''null'')"

definition is_number_unit :: "nat \<Rightarrow> bool" where
  "is_number_unit c = (is_digit c \<or> c = 45 \<or> c = 43 \<or> c = 46 \<or> c = 101 \<or> c = 69)"

definition scanStart :: "token list \<Rightarrow> nat \<Rightarrow> (scan_state \<times> token list) option" where
  \<comment> \<open>a code unit between tokens; the tokens are kept last first\<close>
  "scanStart toks c =
     (if c = 32 \<or> c = 9 \<or> c = 10 \<or> c = 13 then Some (ScanStart, toks)
      else if c = 123 then Some (ScanStart, TLBrace # toks)
      else if c = 125 then Some (ScanStart, TRBrace # toks)
      else if c = 91 then Some (ScanStart, TLBracket # toks)
      else if c = 93 then Some (ScanStart, TRBracket # toks)
      else if c = 58 then Some (ScanStart, TColon # toks)
      else if c = 44 then Some (ScanStart, TComma # toks)
      else if c = 34 then Some (ScanString [], toks)
      else if c = 45 \<or> is_digit c then Some (ScanNumber [c], toks)
      else if is_lower c then Some (ScanWord [c], toks)
      else None)"

definition scanStep :: "scan_state \<times> token list \<Rightarrow> nat \<Rightarrow> (scan_state \<times> token list) option" where
  "scanStep st c =
     (case st of
        (ScanStart, toks) \<Rightarrow> scanStart toks c
      | (ScanString acc, toks) \<Rightarrow>
          if c = 34 then Some (ScanStart, TString (rev acc) # toks)
          else if c = 92 then Some (ScanEscape acc, toks)
          else if c < 32 then None
          else Some (ScanString (c # acc), toks)
      | (ScanEscape acc, toks) \<Rightarrow>
          if c = 117 then Some (ScanUnicode acc [], toks)
          else (case unescape c of
                  None \<Rightarrow> None
                | Some x \<Rightarrow> Some (ScanString (x # acc), toks))
      | (ScanUnicode acc ds, toks) \<Rightarrow>
          (case hexValue c of
             None \<Rightarrow> None
           | Some d \<Rightarrow>
               if length ds = 3
               then Some (ScanString (foldl (\<lambda>v x. 16 * v + x) 0 (ds @ [d]) # acc), toks)
               else Some (ScanUnicode acc (ds @ [d]), toks))
      | (ScanNumber acc, toks) \<Rightarrow>
          if is_number_unit c then Some (ScanNumber (c # acc), toks)
          else if validNumber (rev acc) then scanStart (TNumber (rev acc) # toks) c
          else None
      | (ScanWord acc, toks) \<Rightarrow>
          if is_lower c then Some (ScanWord (c # acc), toks)
          else if validWord (rev acc) then scanStart (TWord (rev acc) # toks) c
          else None)"

definition scanEnd :: "scan_state \<times> token list \<Rightarrow> token list option" where
  "scanEnd st =
     (case st of
        (ScanStart, toks) \<Rightarrow> Some (rev toks)
      | (ScanNumber acc, toks) \<Rightarrow>
          if validNumber (rev acc) then Some (rev (TNumber (rev acc) # toks)) else None
      | (ScanWord acc, toks) \<Rightarrow>
          if validWord (rev acc) then Some (rev (TWord (rev acc) # toks)) else None
      | _ \<Rightarrow> None)"

fun scanFrom :: "scan_state \<times> token list \<Rightarrow> ustring \<Rightarrow> token list option" where
  "scanFrom st [] = scanEnd st"
| "scanFrom st (c # cs) =
     (case scanStep st c of None \<Rightarrow> None | Some st' \<Rightarrow> scanFrom st' cs)"

datatype frame =
    ArrayFrame "json list"
  | ObjectFrame "(ustring \<times> json) list" "ustring option"

datatype expect =
    ExpectValue         \<comment> \<open>at the start, after a colon, after a comma in an array\<close>
  | ExpectValueOrClose  \<comment> \<open>after \<^verbatim>\<open>[\<close>\<close>
  | ExpectKey           \<comment> \<open>after a comma in an object\<close>
  | ExpectKeyOrClose    \<comment> \<open>after \<^verbatim>\<open>{\<close>\<close>
  | ExpectColon
  | ExpectCommaOrClose
  | Finished json

definition pushValue :: "json \<Rightarrow> frame list \<Rightarrow> (frame list \<times> expect) option" where
  "pushValue v stack =
     (case stack of
        [] \<Rightarrow> Some ([], Finished v)
      | ArrayFrame xs # rest \<Rightarrow> Some (ArrayFrame (xs @ [v]) # rest, ExpectCommaOrClose)
      | ObjectFrame kvs (Some k) # rest \<Rightarrow>
          Some (ObjectFrame (kvs @ [(k, v)]) None # rest, ExpectCommaOrClose)
      | ObjectFrame kvs None # rest \<Rightarrow> None)"

definition closeArray :: "frame list \<Rightarrow> (frame list \<times> expect) option" where
  "closeArray stack =
     (case stack of ArrayFrame xs # rest \<Rightarrow> pushValue (JArray xs) rest | _ \<Rightarrow> None)"

definition closeObject :: "frame list \<Rightarrow> (frame list \<times> expect) option" where
  "closeObject stack =
     (case stack of ObjectFrame kvs None # rest \<Rightarrow> pushValue (JObject kvs) rest | _ \<Rightarrow> None)"

definition wordValue :: "ustring \<Rightarrow> json" where
  "wordValue w = (if w = js ''true'' then JBool True else if w = js ''false'' then JBool False else JNull)"

definition startValue :: "frame list \<Rightarrow> token \<Rightarrow> (frame list \<times> expect) option" where
  "startValue stack tok =
     (case tok of
        TString s \<Rightarrow> pushValue (JString s) stack
      | TNumber n \<Rightarrow> pushValue (JNumber n) stack
      | TWord w \<Rightarrow> pushValue (wordValue w) stack
      | TLBracket \<Rightarrow> Some (ArrayFrame [] # stack, ExpectValueOrClose)
      | TLBrace \<Rightarrow> Some (ObjectFrame [] None # stack, ExpectKeyOrClose)
      | _ \<Rightarrow> None)"

definition startKey :: "frame list \<Rightarrow> token \<Rightarrow> (frame list \<times> expect) option" where
  "startKey stack tok =
     (case (tok, stack) of
        (TString k, ObjectFrame kvs None # rest) \<Rightarrow> Some (ObjectFrame kvs (Some k) # rest, ExpectColon)
      | _ \<Rightarrow> None)"

definition parseStep :: "frame list \<times> expect \<Rightarrow> token \<Rightarrow> (frame list \<times> expect) option" where
  "parseStep st tok =
     (case st of
        (stack, ExpectValue) \<Rightarrow> startValue stack tok
      | (stack, ExpectValueOrClose) \<Rightarrow>
          if tok = TRBracket then closeArray stack else startValue stack tok
      | (stack, ExpectKey) \<Rightarrow> startKey stack tok
      | (stack, ExpectKeyOrClose) \<Rightarrow>
          if tok = TRBrace then closeObject stack else startKey stack tok
      | (stack, ExpectColon) \<Rightarrow> if tok = TColon then Some (stack, ExpectValue) else None
      | (stack, ExpectCommaOrClose) \<Rightarrow>
          if tok = TComma then
            (case stack of
               ArrayFrame xs # rest \<Rightarrow> Some (stack, ExpectValue)
             | ObjectFrame kvs k # rest \<Rightarrow> Some (stack, ExpectKey)
             | [] \<Rightarrow> None)
          else if tok = TRBracket then closeArray stack
          else if tok = TRBrace then closeObject stack
          else None
      | (stack, Finished v) \<Rightarrow> None)"

fun parseFrom :: "frame list \<times> expect \<Rightarrow> token list \<Rightarrow> json option" where
  "parseFrom st [] = (case st of ([], Finished v) \<Rightarrow> Some v | _ \<Rightarrow> None)"
| "parseFrom st (tok # toks) =
     (case parseStep st tok of None \<Rightarrow> None | Some st' \<Rightarrow> parseFrom st' toks)"

definition JSON_parse :: json_parser where
  "JSON_parse text =
     (case scanFrom (ScanStart, []) text of
        None \<Rightarrow> None
      | Some toks \<Rightarrow> parseFrom ([], ExpectValue) toks)"

section \<open>Example data\<close>

definition story :: item where
  "story = \<lparr> title = Some (js ''Story one''), url = Some (js ''https://example.com/story-1''),
             summary = None, category = None, pubDate = None \<rparr>"

definition untitledNote :: item where
  "untitledNote = \<lparr> title = Some (js ''First note''), url = None,
                    summary = None, category = None, pubDate = None \<rparr>"

definition otherNote :: item where
  "otherNote = \<lparr> title = Some (js ''Quarterly budget''), url = Some [],
                 summary = None, category = None, pubDate = None \<rparr>"

definition generalCategory :: ustring where
  \<comment> \<open>the other category of the prompt, U+7CBE U+9009 U+8D44 U+8BAF\<close>
  "generalCategory = [31934, 36873, 36164, 35759]"

definition dealA :: item where
  "dealA = \<lparr> title = Some (js ''OpenAI & Microsoft deal''), url = Some (js ''https://a.example/1''),
             summary = Some (js ''One.''), category = Some generalCategory, pubDate = None \<rparr>"

definition dealB :: item where
  "dealB = \<lparr> title = Some (js ''Anthropic & Amazon deal''), url = Some (js ''https://b.example/2''),
             summary = Some (js ''Two.''), category = Some generalCategory, pubDate = None \<rparr>"

definition dealC :: item where
  "dealC = \<lparr> title = Some (js ''OpenAI & Anthropic''), url = Some (js ''https://c.example/3''),
             summary = Some (js ''Three.''), category = Some hotCategory, pubDate = None \<rparr>"

definition answers :: "ustring \<Rightarrow> language_model" where
  \<comment> \<open>a language model that returns the given text\<close>
  "answers text = (\<lambda>allItems digestType. Inr (Some text))"

definition scenario :: ustring where
  \<comment> \<open>the raw model output of the scenario, on one line\<close>
  \<open>scenario = js ''[{"title":"A","url":"http://x","summary":"He said "hello"","category":"general","source":"s"}]''\<close>

definition scenarioLines :: ustring where
  \<comment> \<open>the same output with one member on each line\<close>
  \<open>scenarioLines =
     js ''[{'' @ [10]
     @ js ''  "title": "A",'' @ [10]
     @ js ''  "url": "http://x",'' @ [10]
     @ js ''  "summary": "He said "hello"",'' @ [10]
     @ js ''  "category": "general",'' @ [10]
     @ js ''  "source": "s"'' @ [10]
     @ js ''}]''\<close>

definition repairedLines :: ustring where
  \<comment> \<open>\<open>scenarioLines\<close> with a backslash before each of the two inner quotes\<close>
  \<open>repairedLines =
     js ''[{'' @ [10]
     @ js ''  "title": "A",'' @ [10]
     @ js ''  "url": "http://x",'' @ [10]
     @ js ''  "summary": "He said '' @ [92] @ js ''"hello'' @ [92] @ js ''"",'' @ [10]
     @ js ''  "category": "general",'' @ [10]
     @ js ''  "source": "s"'' @ [10]
     @ js ''}]''\<close>

definition quotedItem :: item where
  \<open>quotedItem = \<lparr> title = Some (js ''A''), url = Some (js ''http://x''),
                    summary = Some (js ''He said "hello"''), category = Some (js ''general''),
                    pubDate = None \<rparr>\<close>

definition fabricatedResponse :: ustring where
  \<open>fabricatedResponse =
     js ''[{"title":"Invented","url":"https://fabricated.example/x","summary":"Made up.","category":"general"}]''\<close>

definition fabricatedItem :: item where
  "fabricatedItem = \<lparr> title = Some (js ''Invented''), url = Some (js ''https://fabricated.example/x''),
                       summary = Some (js ''Made up.''), category = Some (js ''general''),
                       pubDate = None \<rparr>"

definition hotItem :: "string \<Rightarrow> string \<Rightarrow> item" where
  "hotItem t u = \<lparr> title = Some (js t), url = Some (js u), summary = Some (js ''S''),
                   category = Some hotCategory, pubDate = None \<rparr>"

definition hotItemText :: "string \<Rightarrow> string \<Rightarrow> ustring" where
  \<open>hotItemText t u =
     js ''{"title":"'' @ js t @ js ''","url":"'' @ js u @ js ''","summary":"S","category":"''
     @ hotCategory @ js ''"}''\<close>

definition fiveHotResponse :: ustring where
  "fiveHotResponse =
     [91] @ hotItemText ''Alpha'' ''https://e.example/1'' @ [44]
     @ hotItemText ''Bravo'' ''https://e.example/2'' @ [44]
     @ hotItemText ''Delta'' ''https://e.example/3'' @ [44]
     @ hotItemText ''Gamma'' ''https://e.example/4'' @ [44]
     @ hotItemText ''Sigma'' ''https://e.example/5'' @ [93]"

definition fiveHot :: "item list" where
  "fiveHot = [hotItem ''Alpha'' ''https://e.example/1'', hotItem ''Bravo'' ''https://e.example/2'',
              hotItem ''Delta'' ''https://e.example/3'', hotItem ''Gamma'' ''https://e.example/4'',
              hotItem ''Sigma'' ''https://e.example/5'']"

definition twoHotResponse :: ustring where
  "twoHotResponse =
     [91] @ hotItemText ''Alpha'' ''https://e.example/1'' @ [44]
     @ hotItemText ''Bravo'' ''https://e.example/1'' @ [93]"

definition exampleDates :: date_parser where
  \<comment> \<open>\<^verbatim>\<open>new Date(s).getTime()\<close> on the two strings of the example\<close>
  "exampleDates s = (if s = js ''2024-01-01T00:00:00Z'' then Some 1704067200000 else None)"

definition datedItem :: "string option \<Rightarrow> string \<Rightarrow> item" where
  "datedItem d u = \<lparr> title = Some (js ''News''), url = Some (js u), summary = None, category = None,
                     pubDate = map_option js d \<rparr>"

section \<open>Properties of title similarity\<close>

lemmas char_defs = is_upper_def is_lower_def is_digit_def is_alpha_def is_alnum_def is_space_def
  lower_unit_def title_noise_def is_quantity_unit_def is_kmbgt_def is_numpart_def is_cjk_def

lemmas cand_defs = trim_def rtrim_def endsWith_def stripFenceStart_def stripFenceEnd_def stripped_def
  uptoLastBracket_def extracted_def aggressive_def singleObj_def jsonCandidates_def
lemmas fix_defs = replaceCurlyQuotes_def is_line_terminator_def keyPrefixLength_def fixLine_def
  fixLlmJsonQuotes_def
lemmas json_defs = hexValue_def unescape_def validNumber_def validWord_def is_number_unit_def
  scanStart_def scanStep_def scanEnd_def pushValue_def closeArray_def closeObject_def wordValue_def
  startValue_def startKey_def parseStep_def JSON_parse_def
lemmas item_defs = tryCandidate_def isValidElement_def property_def jsonTruthy_def textField_def
  toItem_def numberIsZero_def
lemmas title_defs = titlesAreSimilar_def extractKeyEntities_def normalizeTitle_def orEmpty_def
  toLowerCase_def number_at_def name_at_def cnName_at_def bigrams_def namesOverlap_def
  sharedNames_def sharedNums_def sameNameAndNumber_def sameEntityShortTitles_def bigramsOverlap_def
lemmas url_defs = normalizeUrl_def normalizeUrlForHash_def URL_simple_def afterScheme_def
  urlArgument_def stripTrailingSlashes_def toLowerCase_def
lemmas dedup_defs = deduplicateItems_def dedupStep_def mapSet_def mapDelete_def isHot_def

lemma namesOverlap_sym: "namesOverlap n m = namesOverlap m n"
  by (auto simp: namesOverlap_def)

lemma sharedNames_sym: "(sharedNames k ea eb \<noteq> []) = (sharedNames k eb ea \<noteq> [])"
  unfolding sharedNames_def filter_empty_conv list_ex_iff
  using namesOverlap_sym by blast

lemma sharedNums_sym: "(sharedNums ea eb \<noteq> []) = (sharedNums eb ea \<noteq> [])"
  unfolding sharedNums_def filter_empty_conv by auto

lemma sameNameAndNumber_sym: "sameNameAndNumber ea eb = sameNameAndNumber eb ea"
  unfolding sameNameAndNumber_def
  using sharedNames_sym[of 0 ea eb] sharedNums_sym[of ea eb] by blast

lemma sameEntityShortTitles_sym:
  "sameEntityShortTitles ea eb na nb = sameEntityShortTitles eb ea nb na"
  unfolding sameEntityShortTitles_def
  using sharedNames_sym[of 4 ea eb] by blast

lemma bigramsOverlap_sym: "bigramsOverlap na nb = bigramsOverlap nb na"
  unfolding bigramsOverlap_def Let_def
  by (simp add: Int_commute add.commute disj_commute)

lemma titlesAreSimilar_flat:
  "titlesAreSimilar a b =
     (normalizeTitle a \<noteq> [] \<and> normalizeTitle b \<noteq> [] \<and>
      (normalizeTitle a = normalizeTitle b
       \<or> js_includes (normalizeTitle a) (normalizeTitle b)
       \<or> js_includes (normalizeTitle b) (normalizeTitle a)
       \<or> sameNameAndNumber (extractKeyEntities a) (extractKeyEntities b)
       \<or> sameEntityShortTitles (extractKeyEntities a) (extractKeyEntities b)
            (normalizeTitle a) (normalizeTitle b)
       \<or> bigramsOverlap (normalizeTitle a) (normalizeTitle b)))"
  unfolding titlesAreSimilar_def Let_def by auto

text \<open>
  C7. Title similarity is symmetric: for all titles \<open>a\<close> and \<open>b\<close> (missing ones included),
  \<^verbatim>\<open>titlesAreSimilar(a, b)\<close> and \<^verbatim>\<open>titlesAreSimilar(b, a)\<close> give the same answer.
\<close>

theorem titlesAreSimilar_symmetric: "titlesAreSimilar a b = titlesAreSimilar b a"
  unfolding titlesAreSimilar_flat[of a b] titlesAreSimilar_flat[of b a]
  using sameNameAndNumber_sym[of "extractKeyEntities a" "extractKeyEntities b"]
    sameEntityShortTitles_sym[of "extractKeyEntities a" "extractKeyEntities b"
      "normalizeTitle a" "normalizeTitle b"]
    bigramsOverlap_sym[of "normalizeTitle a" "normalizeTitle b"]
  by auto

theorem titlesAreSimilar_symmetric_witness:
  "titlesAreSimilar (Some (js ''OpenAI raises $500M'')) (Some (js ''OpenAI secures $500 million funding''))
   = titlesAreSimilar (Some (js ''OpenAI secures $500 million funding'')) (Some (js ''OpenAI raises $500M''))"
  by (rule titlesAreSimilar_symmetric)

section \<open>Properties of the push history\<close>

lemma insertOrIgnore_keeps: "set rows \<subseteq> set (insertOrIgnore r rows)"
  by (auto simp: insertOrIgnore_def)

lemma insertOrIgnore_has_hash: "url_hash r \<in> url_hash ` set (insertOrIgnore r rows)"
  by (auto simp: insertOrIgnore_def)

lemma insertOrIgnore_origin: "x \<in> set (insertOrIgnore r rows) \<Longrightarrow> x \<in> set rows \<or> x = r"
  by (auto simp: insertOrIgnore_def split: if_splits)

lemma recordRows_Cons:
  "recordRows sha P dt T rows (j # items) =
     recordRows sha P dt T (insertOrIgnore (pushedRow sha P dt T j) rows) items"
  by (simp add: recordRows_def)

lemma recordRows_keeps: "set rows \<subseteq> set (recordRows sha P dt T rows items)"
proof (induction items arbitrary: rows)
  case Nil
  show ?case by (simp add: recordRows_def)
next
  case (Cons i items)
  show ?case
    unfolding recordRows_Cons
    using Cons.IH[of "insertOrIgnore (pushedRow sha P dt T i) rows"]
      insertOrIgnore_keeps[of rows "pushedRow sha P dt T i"] by auto
qed

lemma recordRows_origin:
  "x \<in> set (recordRows sha P dt T rows items) \<Longrightarrow> x \<in> set rows \<or> pushed_at x = T"
proof (induction items arbitrary: rows)
  case Nil
  then show ?case by (simp add: recordRows_def)
next
  case (Cons i items)
  from Cons.IH[of "insertOrIgnore (pushedRow sha P dt T i) rows"] Cons.prems
  have "x \<in> set (insertOrIgnore (pushedRow sha P dt T i) rows) \<or> pushed_at x = T"
    by (simp add: recordRows_Cons)
  then show ?case
    using insertOrIgnore_origin[of x "pushedRow sha P dt T i" rows]
    by (auto simp: pushedRow_def)
qed

lemma recordRows_has_hash:
  "i \<in> set items \<Longrightarrow>
   hashStr sha (normalizeUrlForHash P (url i)) \<in> url_hash ` set (recordRows sha P dt T rows items)"
proof (induction items arbitrary: rows)
  case Nil
  then show ?case by simp
next
  case (Cons j items)
  show ?case
  proof (cases "i = j")
    case True
    have "url_hash (pushedRow sha P dt T j)
            \<in> url_hash ` set (insertOrIgnore (pushedRow sha P dt T j) rows)"
      by (rule insertOrIgnore_has_hash)
    then have "url_hash (pushedRow sha P dt T j)
            \<in> url_hash ` set (recordRows sha P dt T rows (j # items))"
      unfolding recordRows_Cons
      using recordRows_keeps[of "insertOrIgnore (pushedRow sha P dt T j) rows" sha P dt T items]
      by blast
    then show ?thesis using True by (simp add: pushedRow_def)
  next
    case False
    then have "i \<in> set items" using Cons.prems by simp
    then show ?thesis unfolding recordRows_Cons by (rule Cons.IH)
  qed
qed

lemma recordPushedItems_Database:
  "recordPushedItems sha P (Database rows) items dt T =
     Inr (Database (recordRows sha P dt T rows items))"
  by (simp add: recordPushedItems_def)

lemma loadPushedHistory_urlHashes:
  "loadPushedHistory (Some (Database rows)) hours now = Inr h \<Longrightarrow>
   urlHashes h = url_hash ` {r \<in> set rows. now - int hours * 3600 \<le> pushed_at r}"
  by (auto simp: loadPushedHistory_def selectPushedSince_def)

lemma isItemPushedBefore_urlHash:
  "hashStr sha (normalizeUrlForHash P (url i)) \<in> urlHashes h \<Longrightarrow> isItemPushedBefore sha P h i"
  by (simp add: isItemPushedBefore_def)

lemma row_in_window_suppresses:
  assumes r: "r \<in> set rows" "url_hash r = hashStr sha (normalizeUrlForHash P (url i))"
    and window: "now - int hours * 3600 \<le> pushed_at r"
    and load: "loadPushedHistory (Some (Database rows)) hours now = Inr h"
  shows "isItemPushedBefore sha P h i"
proof -
  have "r \<in> {r \<in> set rows. now - int hours * 3600 \<le> pushed_at r}"
    using r(1) window by simp
  then have "url_hash r \<in> url_hash ` {r \<in> set rows. now - int hours * 3600 \<le> pushed_at r}"
    by (rule imageI)
  then have "hashStr sha (normalizeUrlForHash P (url i)) \<in> urlHashes h"
    using loadPushedHistory_urlHashes[OF load] r(2) by simp
  then show ?thesis by (rule isItemPushedBefore_urlHash)
qed

text \<open>
  C1. Suppression monotonicity. Once \<^verbatim>\<open>recordPushedItems\<close> has run on a list holding the
  item, the table holds a row with the hash of the item's URL: the row this run
  inserted, with the time of the run, or an older row with that hash, which
  \<^verbatim>\<open>INSERT OR IGNORE\<close> has kept as it was. Every snapshot that \<^verbatim>\<open>loadPushedHistory\<close> takes
  over a window covering the \<^verbatim>\<open>pushed_at\<close> of that row makes \<^verbatim>\<open>isItemPushedBefore\<close> return
  true for every item with the same URL, whatever its other fields. The URL need not be
  non-empty for this.
\<close>

theorem suppression_after_record:
  assumes mem: "i \<in> set items"
  shows "\<exists>r \<in> set (recordRows sha parseURL dt T rows items).
           recordPushedItems sha parseURL (Database rows) items dt T
             = Inr (Database (recordRows sha parseURL dt T rows items))
           \<and> url_hash r = hashStr sha (normalizeUrlForHash parseURL (url i))
           \<and> (r \<in> set rows \<or> pushed_at r = T)
           \<and> (\<forall>hours T' h i'.
                 T' - int hours * 3600 \<le> pushed_at r
                 \<and> loadPushedHistory (Some (Database (recordRows sha parseURL dt T rows items))) hours T' = Inr h
                 \<and> url i' = url i
                 \<longrightarrow> isItemPushedBefore sha parseURL h i')"
proof -
  let ?rows' = "recordRows sha parseURL dt T rows items"
  let ?k = "hashStr sha (normalizeUrlForHash parseURL (url i))"
  obtain r where r: "r \<in> set ?rows'" "url_hash r = ?k"
    using recordRows_has_hash[OF mem, of sha parseURL dt T rows] by auto
  have origin: "r \<in> set rows \<or> pushed_at r = T"
    using recordRows_origin[OF r(1)] .
  have sup: "\<forall>hours T' h i'.
          T' - int hours * 3600 \<le> pushed_at r
          \<and> loadPushedHistory (Some (Database ?rows')) hours T' = Inr h \<and> url i' = url i
          \<longrightarrow> isItemPushedBefore sha parseURL h i'"
  proof (intro allI impI, elim conjE)
    fix hours :: nat and T' :: int and h :: history and i' :: item
    assume w: "T' - int hours * 3600 \<le> pushed_at r"
      and l: "loadPushedHistory (Some (Database ?rows')) hours T' = Inr h"
      and same: "url i' = url i"
    have "url_hash r = hashStr sha (normalizeUrlForHash parseURL (url i'))"
      using r(2) same by simp
    from row_in_window_suppresses[OF r(1) this w l]
    show "isItemPushedBefore sha parseURL h i'" .
  qed
  show ?thesis
    using r origin sup recordPushedItems_Database[of sha parseURL rows items dt T] by blast
qed

lemma story_url: "normalizeUrlForHash URL_simple (Some (js ''https://example.com/story-1'')) = js ''example.com/story-1''"
  by (simp add: normalizeUrlForHash_def URL_simple_def afterScheme_def urlArgument_def js_def toLowerCase_def
     stripTrailingSlashes_def char_defs)

theorem suppression_after_record_witness:
  "\<forall>sha. story \<in> set [story]
     \<and> recordPushedItems sha URL_simple (Database []) [story] (js ''daily'') 36000
           = Inr (Database [pushedRow sha URL_simple (js ''daily'') 36000 story])
     \<and> url_hash (pushedRow sha URL_simple (js ''daily'') 36000 story)
           = hashStr sha (js ''example.com/story-1'')
     \<and> loadPushedHistory (Some (Database [pushedRow sha URL_simple (js ''daily'') 36000 story])) 72 72000
           = Inr \<lparr> urlHashes = {hashStr sha (js ''example.com/story-1'')},
                   titleHashes = {hashStr sha (js ''storyone'')},
                   titles = [js ''Story one''] \<rparr>
     \<and> isItemPushedBefore sha URL_simple
           \<lparr> urlHashes = {hashStr sha (js ''example.com/story-1'')},
             titleHashes = {hashStr sha (js ''storyone'')},
             titles = [js ''Story one''] \<rparr>
           (story \<lparr> title := Some (js ''Quarterly budget'') \<rparr>)"
proof (intro allI)
  fix sha :: sha256
  let ?row = "pushedRow sha URL_simple (js ''daily'') 36000 story"
  let ?h = "\<lparr> urlHashes = {hashStr sha (js ''example.com/story-1'')},
             titleHashes = {hashStr sha (js ''storyone'')},
             titles = [js ''Story one''] \<rparr>"
  let ?j = "story \<lparr> title := Some (js ''Quarterly budget'') \<rparr>"
  have mem: "story \<in> set [story]" by simp
  have rows: "recordRows sha URL_simple (js ''daily'') 36000 [] [story] = [?row]"
    by (simp add: recordRows_def insertOrIgnore_def)
  have rec: "recordPushedItems sha URL_simple (Database []) [story] (js ''daily'') 36000 = Inr (Database [?row])"
    by (simp add: recordPushedItems_def rows)
  have k: "url_hash ?row = hashStr sha (js ''example.com/story-1'')"
    by (simp add: pushedRow_def story_def story_url)
  have load: "loadPushedHistory (Some (Database [?row])) 72 72000 = Inr ?h"
    apply (simp add: loadPushedHistory_def selectPushedSince_def pushedRow_def story_def story_url
       titleKey_def orEmpty_def truthy_def)
    apply (simp add: js_def toLowerCase_def char_defs)
    done
  have same: "url ?j = url story" by simp
  note main = suppression_after_record[OF mem, where sha = sha and parseURL = URL_simple
      and dt = "js ''daily''" and T = 36000 and rows = "[]"]
  then obtain r where r: "r \<in> set (recordRows sha URL_simple (js ''daily'') 36000 [] [story])"
    and sup: "\<forall>hours T' h i'.
       T' - int hours * 3600 \<le> pushed_at r
       \<and> loadPushedHistory (Some (Database (recordRows sha URL_simple (js ''daily'') 36000 [] [story]))) hours T' = Inr h
       \<and> url i' = url story \<longrightarrow> isItemPushedBefore sha URL_simple h i'"
    by blast
  have "r = ?row" using r rows by simp
  then have "72000 - int 72 * 3600 \<le> pushed_at r" by (simp add: pushedRow_def)
  with sup load same have "isItemPushedBefore sha URL_simple ?h ?j"
    unfolding rows by blast
  with mem rec k load
  show "story \<in> set [story]
     \<and> recordPushedItems sha URL_simple (Database []) [story] (js ''daily'') 36000 = Inr (Database [?row])
     \<and> url_hash ?row = hashStr sha (js ''example.com/story-1'')
     \<and> loadPushedHistory (Some (Database [?row])) 72 72000 = Inr ?h
     \<and> isItemPushedBefore sha URL_simple ?h ?j"
    by simp
qed

text \<open>
  C9. Loading the history never raises: \<^verbatim>\<open>loadPushedHistory\<close> returns a snapshot for every
  handle (\<^verbatim>\<open>null\<close> and an unreadable database included) and every window: the empty one
  when the query throws, and on a readable table the hashes and the non-empty titles of
  the rows inside the window. \<^verbatim>\<open>main\<close> keeps the empty snapshot when \<^verbatim>\<open>getPushDbAsync\<close>
  gives no handle.
\<close>

theorem loadPushedHistory_never_raises:
  "(\<exists>h. loadPushedHistory db hours now = Inr h)
   \<and> (selectPushedSince db hours now = Inl e \<longrightarrow> loadPushedHistory db hours now = Inr emptyHistory)
   \<and> (db = Some (Database rows) \<longrightarrow>
        loadPushedHistory db hours now
          = Inr \<lparr> urlHashes = url_hash ` {r \<in> set rows. now - int hours * 3600 \<le> pushed_at r},
                  titleHashes = title_hash ` {r \<in> set rows. now - int hours * 3600 \<le> pushed_at r},
                  titles = map orEmpty (filter truthy (map row_title
                             (filter (\<lambda>r. now - int hours * 3600 \<le> pushed_at r) rows))) \<rparr>)
   \<and> (\<exists>h. mainLoadHistory env now = Inr h)
   \<and> (getPushDbAsync env = None \<longrightarrow> mainLoadHistory env now = Inr emptyHistory)"
proof -
  have total: "\<exists>h. loadPushedHistory d n t = Inr h" for d n t
  proof (cases "selectPushedSince d n t")
    case (Inl err)
    then show ?thesis by (simp add: loadPushedHistory_def)
  next
    case (Inr found)
    then show ?thesis by (simp add: loadPushedHistory_def)
  qed
  have failed: "selectPushedSince db hours now = Inl e \<longrightarrow> loadPushedHistory db hours now = Inr emptyHistory"
    by (simp add: loadPushedHistory_def)
  have readable: "db = Some (Database rows) \<longrightarrow>
        loadPushedHistory db hours now
          = Inr \<lparr> urlHashes = url_hash ` {r \<in> set rows. now - int hours * 3600 \<le> pushed_at r},
                  titleHashes = title_hash ` {r \<in> set rows. now - int hours * 3600 \<le> pushed_at r},
                  titles = map orEmpty (filter truthy (map row_title
                             (filter (\<lambda>r. now - int hours * 3600 \<le> pushed_at r) rows))) \<rparr>"
    by (simp add: loadPushedHistory_def selectPushedSince_def)
  have main_total: "\<exists>h. mainLoadHistory env now = Inr h"
  proof (cases "getPushDbAsync env")
    case None
    then show ?thesis by (simp add: mainLoadHistory_def)
  next
    case (Some handle)
    then show ?thesis using total[of "Some handle" 72 now] by (simp add: mainLoadHistory_def)
  qed
  have no_handle: "getPushDbAsync env = None \<longrightarrow> mainLoadHistory env now = Inr emptyHistory"
    by (simp add: mainLoadHistory_def)
  from total[of db hours now] failed readable main_total no_handle show ?thesis by blast
qed

theorem loadPushedHistory_never_raises_witness:
  "loadPushedHistory (Some Unreadable) 72 0 = Inr emptyHistory
   \<and> loadPushedHistory None 72 0 = Inr emptyHistory
   \<and> mainLoadHistory \<lparr> cachedDb = None, sqliteLoads = True, dbFile = NoFile \<rparr> 0 = Inr emptyHistory"
  using loadPushedHistory_never_raises[where db = "Some Unreadable" and hours = 72 and now = 0
      and e = SqliteError and env = "\<lparr> cachedDb = None, sqliteLoads = True, dbFile = NoFile \<rparr>"]
    loadPushedHistory_never_raises[where db = None and hours = 72 and now = 0 and e = TypeError
      and env = "\<lparr> cachedDb = None, sqliteLoads = True, dbFile = NoFile \<rparr>"]
  by (simp add: selectPushedSince_def getPushDbAsync_def)

lemma normalizeUrlForHash_falsy:
  assumes "parseURL [] = None" and "parseURL (js ''undefined'') = None" and "\<not> truthy (url i)"
  shows "normalizeUrlForHash parseURL (url i) = []"
  using assms
  by (cases "url i") (auto simp: normalizeUrlForHash_def urlArgument_def truthy_def orEmpty_def toLowerCase_def)

text \<open>
  C10. Items without a URL share one URL hash. The URL constructor throws on the empty
  string and on \<^verbatim>\<open>undefined\<close>, so \<^verbatim>\<open>normalizeUrlForHash\<close> gives the empty string for a
  missing or empty URL and \<^verbatim>\<open>hashStr\<close> the hash of the empty string. Once a list holding
  such an item has been recorded, the table has a row with that hash, and every
  snapshot whose window covers that row suppresses every item without a URL, whatever
  its title.
\<close>

theorem urlless_items_share_hash:
  assumes empty: "parseURL [] = None"
    and undef: "parseURL (js ''undefined'') = None"
    and nourl: "\<not> truthy (url i)"
  shows "normalizeUrlForHash parseURL (url i) = []
     \<and> hashStr sha (normalizeUrlForHash parseURL (url i)) = hashStr sha []
     \<and> (i \<in> set items \<longrightarrow>
          (\<exists>r \<in> set (recordRows sha parseURL dt T rows items).
             recordPushedItems sha parseURL (Database rows) items dt T
               = Inr (Database (recordRows sha parseURL dt T rows items))
             \<and> url_hash r = hashStr sha []
             \<and> (\<forall>hours T' h j.
                   T' - int hours * 3600 \<le> pushed_at r
                   \<and> loadPushedHistory (Some (Database (recordRows sha parseURL dt T rows items))) hours T' = Inr h
                   \<and> \<not> truthy (url j)
                   \<longrightarrow> isItemPushedBefore sha parseURL h j)))"
proof (intro conjI impI)
  show n: "normalizeUrlForHash parseURL (url i) = []"
    by (rule normalizeUrlForHash_falsy[OF assms])
  then show "hashStr sha (normalizeUrlForHash parseURL (url i)) = hashStr sha []" by simp
  assume mem: "i \<in> set items"
  let ?rows' = "recordRows sha parseURL dt T rows items"
  obtain r where r: "r \<in> set ?rows'" "url_hash r = hashStr sha []"
    using recordRows_has_hash[OF mem, of sha parseURL dt T rows] n by auto
  have "\<forall>hours T' h j.
          T' - int hours * 3600 \<le> pushed_at r
          \<and> loadPushedHistory (Some (Database ?rows')) hours T' = Inr h \<and> \<not> truthy (url j)
          \<longrightarrow> isItemPushedBefore sha parseURL h j"
  proof (intro allI impI, elim conjE)
    fix hours :: nat and T' :: int and h :: history and j :: item
    assume w: "T' - int hours * 3600 \<le> pushed_at r"
      and l: "loadPushedHistory (Some (Database ?rows')) hours T' = Inr h"
      and nj: "\<not> truthy (url j)"
    have "url_hash r = hashStr sha (normalizeUrlForHash parseURL (url j))"
      using r(2) normalizeUrlForHash_falsy[OF empty undef nj] by simp
    from row_in_window_suppresses[OF r(1) this w l]
    show "isItemPushedBefore sha parseURL h j" .
  qed
  with r show "\<exists>r \<in> set ?rows'.
      recordPushedItems sha parseURL (Database rows) items dt T = Inr (Database ?rows')
      \<and> url_hash r = hashStr sha []
      \<and> (\<forall>hours T' h j.
            T' - int hours * 3600 \<le> pushed_at r
            \<and> loadPushedHistory (Some (Database ?rows')) hours T' = Inr h \<and> \<not> truthy (url j)
            \<longrightarrow> isItemPushedBefore sha parseURL h j)"
    using recordPushedItems_Database[of sha parseURL rows items dt T] by blast
qed

lemma URL_simple_no_scheme:
  "URL_simple [] = None \<and> URL_simple (js ''undefined'') = None"
  by (simp add: URL_simple_def afterScheme_def js_def toLowerCase_def char_defs)

theorem urlless_items_share_hash_witness:
  "\<forall>sha. URL_simple [] = None \<and> URL_simple (js ''undefined'') = None
     \<and> \<not> truthy (url untitledNote) \<and> \<not> truthy (url otherNote)
     \<and> normalizeUrlForHash URL_simple (url untitledNote) = []
     \<and> recordRows sha URL_simple (js ''4h'') 36000 [] [untitledNote]
          = [pushedRow sha URL_simple (js ''4h'') 36000 untitledNote]
     \<and> loadPushedHistory (Some (Database [pushedRow sha URL_simple (js ''4h'') 36000 untitledNote])) 72 72000
          = Inr \<lparr> urlHashes = {hashStr sha []}, titleHashes = {hashStr sha (js ''firstnote'')},
                  titles = [js ''First note''] \<rparr>
     \<and> isItemPushedBefore sha URL_simple
          \<lparr> urlHashes = {hashStr sha []}, titleHashes = {hashStr sha (js ''firstnote'')},
            titles = [js ''First note''] \<rparr> otherNote"
proof (intro allI)
  fix sha :: sha256
  let ?row = "pushedRow sha URL_simple (js ''4h'') 36000 untitledNote"
  let ?h = "\<lparr> urlHashes = {hashStr sha []}, titleHashes = {hashStr sha (js ''firstnote'')},
             titles = [js ''First note''] \<rparr>"
  have p: "URL_simple [] = None" "URL_simple (js ''undefined'') = None"
    using URL_simple_no_scheme by simp_all
  have u: "\<not> truthy (url untitledNote)" and o: "\<not> truthy (url otherNote)"
    by (simp_all add: untitledNote_def otherNote_def truthy_def orEmpty_def)
  have rows: "recordRows sha URL_simple (js ''4h'') 36000 [] [untitledNote] = [?row]"
    by (simp add: recordRows_def insertOrIgnore_def)
  note main = urlless_items_share_hash[OF p u, where items = "[untitledNote]" and sha = sha
      and dt = "js ''4h''" and T = 36000 and rows = "[]"]
  have n: "normalizeUrlForHash URL_simple (url untitledNote) = []"
    using main by simp
  have load: "loadPushedHistory (Some (Database [?row])) 72 72000 = Inr ?h"
    apply (simp add: loadPushedHistory_def selectPushedSince_def pushedRow_def n)
    apply (simp add: titleKey_def orEmpty_def truthy_def untitledNote_def)
    apply (simp add: js_def toLowerCase_def char_defs)
    done
  have "untitledNote \<in> set [untitledNote]" by simp
  with main obtain r where r: "r \<in> set (recordRows sha URL_simple (js ''4h'') 36000 [] [untitledNote])"
    and sup: "\<forall>hours T' h j.
       T' - int hours * 3600 \<le> pushed_at r
       \<and> loadPushedHistory (Some (Database (recordRows sha URL_simple (js ''4h'') 36000 [] [untitledNote]))) hours T' = Inr h
       \<and> \<not> truthy (url j) \<longrightarrow> isItemPushedBefore sha URL_simple h j"
    by blast
  have "r = ?row" using r rows by simp
  then have "72000 - int 72 * 3600 \<le> pushed_at r" by (simp add: pushedRow_def)
  with sup load o have "isItemPushedBefore sha URL_simple ?h otherNote"
    unfolding rows by blast
  with p u o n rows load
  show "URL_simple [] = None \<and> URL_simple (js ''undefined'') = None
     \<and> \<not> truthy (url untitledNote) \<and> \<not> truthy (url otherNote)
     \<and> normalizeUrlForHash URL_simple (url untitledNote) = []
     \<and> recordRows sha URL_simple (js ''4h'') 36000 [] [untitledNote] = [?row]
     \<and> loadPushedHistory (Some (Database [?row])) 72 72000 = Inr ?h
     \<and> isItemPushedBefore sha URL_simple ?h otherNote"
    by simp
qed

section \<open>Properties of URL normalization\<close>

lemma toLowerCase_length: "toLowerCase s = toLowerCase t \<Longrightarrow> length s = length t"
  unfolding toLowerCase_def by (rule map_eq_imp_length_eq)

lemma toLowerCase_keeps_length: "length (toLowerCase s) = length s"
  by (simp add: toLowerCase_def)

lemma toLowerCase_append: "toLowerCase (s @ t) = toLowerCase s @ toLowerCase t"
  by (simp add: toLowerCase_def)

lemma lower_unit_idem: "lower_unit (lower_unit c) = lower_unit c"
  by (simp add: lower_unit_def is_upper_def)

lemma toLowerCase_idem: "toLowerCase (toLowerCase s) = toLowerCase s"
  by (simp add: toLowerCase_def lower_unit_idem)

lemma lower_unit_slash: "(lower_unit c = 47) = (c = 47)"
  by (auto simp: lower_unit_def is_upper_def)

lemma toLowerCase_slashes: "toLowerCase (replicate k 47) = replicate k 47"
  by (simp add: toLowerCase_def lower_unit_def is_upper_def)

lemma toLowerCase_js_sep: "toLowerCase (js ''://'') = js ''://''"
  by (simp add: toLowerCase_def js_def lower_unit_def is_upper_def)

lemma afterScheme_http:
  assumes "toLowerCase s = js ''http'' \<or> toLowerCase s = js ''https''"
  shows "afterScheme (s @ js ''://'' @ rest) = Some rest"
proof -
  from assms consider (http) "toLowerCase s = js ''http''" | (https) "toLowerCase s = js ''https''"
    by blast
  then show ?thesis
  proof cases
    case http
    then have len: "length s = 4"
      using toLowerCase_keeps_length[of s] by (simp add: js_def)
    have "take 7 (s @ js ''://'' @ rest) = s @ js ''://''"
      using len by (simp add: js_def)
    then have "toLowerCase (take 7 (s @ js ''://'' @ rest)) = js ''http://''"
      using http by (simp add: toLowerCase_append toLowerCase_js_sep) (simp add: js_def)
    moreover have "drop 7 (s @ js ''://'' @ rest) = rest"
      using len by (simp add: js_def)
    ultimately show ?thesis by (simp add: afterScheme_def)
  next
    case https
    then have len: "length s = 5"
      using toLowerCase_keeps_length[of s] by (simp add: js_def)
    have "take 7 (s @ js ''://'' @ rest) = s @ [58, 47]"
      using len by (simp add: js_def)
    then have "toLowerCase (take 7 (s @ js ''://'' @ rest)) = js ''https'' @ [58, 47]"
      using https by (simp add: toLowerCase_append) (simp add: toLowerCase_def lower_unit_def is_upper_def)
    then have no: "toLowerCase (take 7 (s @ js ''://'' @ rest)) \<noteq> js ''http://''"
      by (simp add: js_def)
    have "take 8 (s @ js ''://'' @ rest) = s @ js ''://''"
      using len by (simp add: js_def)
    then have yes: "toLowerCase (take 8 (s @ js ''://'' @ rest)) = js ''https://''"
      using https by (simp add: toLowerCase_append toLowerCase_js_sep) (simp add: js_def)
    have "drop 8 (s @ js ''://'' @ rest) = rest"
      using len by (simp add: js_def)
    with no yes show ?thesis by (simp add: afterScheme_def)
  qed
qed

lemma stripTrailingSlashes_append:
  assumes "a \<noteq> []" and "last a \<noteq> 47"
  shows "stripTrailingSlashes (a @ b) = a @ stripTrailingSlashes b"
proof -
  have "\<not> (\<forall>x \<in> set (rev a). x = 47)"
    using assms by (metis last_in_set set_rev)
  moreover have "dropWhile (\<lambda>c. c = 47) (rev a) = rev a"
    using assms by (cases "rev a") (auto simp: last_rev)
  ultimately show ?thesis
    unfolding stripTrailingSlashes_def
    by (auto simp: dropWhile_append)
qed

lemma stripTrailingSlashes_slashes:
  "stripTrailingSlashes (p @ replicate k 47) = stripTrailingSlashes p"
  unfolding stripTrailingSlashes_def
  by (simp add: dropWhile_append)

lemma dropWhile_slash_lower:
  "map lower_unit (dropWhile (\<lambda>c. c = 47) s) = dropWhile (\<lambda>c. c = 47) (map lower_unit s)"
  by (induction s) (auto simp: lower_unit_slash)

lemma toLowerCase_strip:
  "toLowerCase (stripTrailingSlashes p) = stripTrailingSlashes (toLowerCase p)"
  unfolding stripTrailingSlashes_def toLowerCase_def
  by (simp add: rev_map dropWhile_slash_lower[symmetric])

lemma URL_simple_http:
  assumes scheme: "toLowerCase s = js ''http'' \<or> toLowerCase s = js ''https''"
    and host: "h \<noteq> []" "47 \<notin> set h"
    and path: "q = [] \<or> hd q = 47"
  shows "URL_simple (s @ js ''://'' @ h @ q) = Some (toLowerCase h, if q = [] then [47] else q)"
proof -
  have tw: "takeWhile (\<lambda>c. c \<noteq> 47) (h @ q) = h"
    using host path by (cases q) (auto simp: takeWhile_append)
  have dw: "dropWhile (\<lambda>c. c \<noteq> 47) (h @ q) = q"
    using host path by (cases q) (auto simp: dropWhile_append)
  show ?thesis
    using afterScheme_http[OF scheme, of "h @ q"] tw dw host
    by (simp add: URL_simple_def)
qed

lemma splitDots_nonempty: "splitDots h \<noteq> []"
  by (induction h) (auto split: list.splits)

lemma splitDots_units: "c \<in> set h \<Longrightarrow> c = 46 \<or> (\<exists>l \<in> set (splitDots h). c \<in> set l)"
proof (induction h)
  case Nil
  then show ?case by simp
next
  case (Cons d ds)
  obtain l ls where s: "splitDots ds = l # ls"
    using splitDots_nonempty[of ds] by (cases "splitDots ds") auto
  show ?case
  proof (cases "c = d")
    case True
    then show ?thesis using s by auto
  next
    case False
    then have "c \<in> set ds" using Cons.prems by simp
    from Cons.IH[OF this] show ?thesis using s by auto
  qed
qed

lemma plainHost_nonempty: "plainHost h \<Longrightarrow> h \<noteq> []"
  by (auto simp: plainHost_def plainLabel_def)

lemma plainHost_no_slash: "plainHost h \<Longrightarrow> 47 \<notin> set h"
proof
  assume p: "plainHost h" and "47 \<in> set h"
  then obtain l where l: "l \<in> set (splitDots h)" "47 \<in> set l"
    using splitDots_units[of 47 h] by auto
  then have "plainLabel l" using p by (auto simp: plainHost_def list_all_iff)
  then have "is_alnum 47 \<or> (47::nat) = 45" using l(2) by (auto simp: plainLabel_def list_all_iff)
  then show False by (simp add: char_defs)
qed

text \<open>\<open>URL_simple\<close> reads every plain URL as \<open>readsPlainUrl\<close> says.\<close>

lemma URL_simple_plain:
  assumes "isHttpScheme s" and "plainHost h" and "plainPath q"
  shows "readsPlainUrl URL_simple s h q"
  unfolding readsPlainUrl_def
  using assms URL_simple_http[of s h q] plainHost_nonempty[of h] plainHost_no_slash[of h]
  by (simp add: isHttpScheme_def plainPath_def)

lemma normalizeUrlForHash_reads:
  assumes reads: "readsPlainUrl parseURL s h (p @ replicate k 47)"
    and host: "h \<noteq> []" "47 \<notin> set h"
  shows "normalizeUrlForHash parseURL (Some (s @ js ''://'' @ h @ p @ replicate k 47))
           = toLowerCase h @ stripTrailingSlashes (toLowerCase p)"
proof -
  let ?q = "p @ replicate k 47"
  have "last h \<in> set h"
    using host(1) by (rule last_in_set)
  then have "last h \<noteq> 47"
    using host(2) by metis
  then have lh: "toLowerCase h \<noteq> []" "last (toLowerCase h) \<noteq> 47"
    using host by (auto simp: toLowerCase_def last_map lower_unit_slash)
  have sq: "stripTrailingSlashes (if ?q = [] then [47] else ?q) = stripTrailingSlashes p"
  proof (cases "?q = []")
    case True
    then show ?thesis by (simp add: stripTrailingSlashes_def)
  next
    case False
    then show ?thesis by (simp only: if_False stripTrailingSlashes_slashes)
  qed
  have "normalizeUrlForHash parseURL (Some (s @ js ''://'' @ h @ ?q))
      = toLowerCase (stripTrailingSlashes (toLowerCase h @ (if ?q = [] then [47] else ?q)))"
    using reads
    by (simp add: normalizeUrlForHash_def urlArgument_def readsPlainUrl_def)
  also have "\<dots> = toLowerCase (toLowerCase h @ stripTrailingSlashes (if ?q = [] then [47] else ?q))"
    by (simp only: stripTrailingSlashes_append[OF lh])
  also have "\<dots> = toLowerCase h @ stripTrailingSlashes (toLowerCase p)"
    by (simp only: sq toLowerCase_append toLowerCase_idem toLowerCase_strip)
  finally show ?thesis by simp
qed

text \<open>
  C2, as amended. Take two spellings of a plain URL: the scheme \<^verbatim>\<open>http\<close> or \<^verbatim>\<open>https\<close> in
  either case, a plain host name, a plain path, and any number of trailing slashes. The
  URL constructor is a parameter; on each spelling it returns what the URL standard
  prescribes for a plain URL, the host name in lower case and the path as written
  (\<open>readsPlainUrl\<close>). If the spellings differ only in the scheme, in the trailing slashes
  or in letter case, they have the same normalized form under \<^verbatim>\<open>normalizeUrlForHash\<close> and
  the same hash under \<^verbatim>\<open>hashStr\<close>. A \<^verbatim>\<open>www.\<close> prefix is part of the host name and is kept.
  Where the constructor throws (a host such as \<^verbatim>\<open>example.1\<close>, which is not a plain host
  name) the hypothesis on the parser does not hold and the statement says nothing: there
  the \<^verbatim>\<open>catch\<close> branch returns the whole text in lower case, scheme and slashes included.
\<close>

theorem normalizeUrlForHash_spellings:
  assumes scheme: "isHttpScheme s1" "isHttpScheme s2"
    and host: "plainHost h1" "plainHost h2" "toLowerCase h1 = toLowerCase h2"
    and path: "plainPath p1" "plainPath p2" "toLowerCase p1 = toLowerCase p2"
    and url1: "readsPlainUrl parseURL s1 h1 (p1 @ replicate k1 47)"
    and url2: "readsPlainUrl parseURL s2 h2 (p2 @ replicate k2 47)"
  shows "normalizeUrlForHash parseURL (Some (s1 @ js ''://'' @ h1 @ p1 @ replicate k1 47))
       = normalizeUrlForHash parseURL (Some (s2 @ js ''://'' @ h2 @ p2 @ replicate k2 47))
     \<and> hashStr sha (normalizeUrlForHash parseURL (Some (s1 @ js ''://'' @ h1 @ p1 @ replicate k1 47)))
       = hashStr sha (normalizeUrlForHash parseURL (Some (s2 @ js ''://'' @ h2 @ p2 @ replicate k2 47)))"
proof -
  have "normalizeUrlForHash parseURL (Some (s1 @ js ''://'' @ h1 @ p1 @ replicate k1 47))
       = normalizeUrlForHash parseURL (Some (s2 @ js ''://'' @ h2 @ p2 @ replicate k2 47))"
    unfolding normalizeUrlForHash_reads[OF url1 plainHost_nonempty[OF host(1)] plainHost_no_slash[OF host(1)]]
      normalizeUrlForHash_reads[OF url2 plainHost_nonempty[OF host(2)] plainHost_no_slash[OF host(2)]]
    using host(3) path(3) by simp
  then show ?thesis by simp
qed

theorem normalizeUrlForHash_spellings_witness:
  "\<forall>sha. isHttpScheme (js ''HTTP'') \<and> isHttpScheme (js ''https'')
     \<and> plainHost (js ''Example.COM'') \<and> plainHost (js ''example.com'')
     \<and> plainPath (js ''/Story-1'') \<and> plainPath (js ''/story-1'')
     \<and> readsPlainUrl URL_simple (js ''HTTP'') (js ''Example.COM'') (js ''/Story-1//'')
     \<and> readsPlainUrl URL_simple (js ''https'') (js ''example.com'') (js ''/story-1'')
     \<and> normalizeUrlForHash URL_simple (Some (js ''HTTP://Example.COM/Story-1//'')) = js ''example.com/story-1''
     \<and> normalizeUrlForHash URL_simple (Some (js ''https://example.com/story-1'')) = js ''example.com/story-1''
     \<and> hashStr sha (normalizeUrlForHash URL_simple (Some (js ''HTTP://Example.COM/Story-1//'')))
       = hashStr sha (normalizeUrlForHash URL_simple (Some (js ''https://example.com/story-1'')))"
proof
  fix sha :: sha256
  have two: "replicate 2 (47::nat) = [47, 47]"
    by (simp add: numeral_2_eq_2)
  have a: "js ''HTTP://Example.COM/Story-1//'' = js ''HTTP'' @ js ''://'' @ js ''Example.COM'' @ js ''/Story-1'' @ replicate 2 47"
    by (simp add: js_def two)
  have b: "js ''https://example.com/story-1'' = js ''https'' @ js ''://'' @ js ''example.com'' @ js ''/story-1'' @ replicate 0 47"
    by (simp add: js_def)
  have s: "isHttpScheme (js ''HTTP'')" "isHttpScheme (js ''https'')"
    by (simp_all add: isHttpScheme_def js_def toLowerCase_def char_defs)
  have h: "plainHost (js ''Example.COM'')" "plainHost (js ''example.com'')"
    by (simp_all add: plainHost_def plainLabel_def js_def toLowerCase_def char_defs)
  have lh: "toLowerCase (js ''Example.COM'') = toLowerCase (js ''example.com'')"
    by (simp add: js_def toLowerCase_def char_defs)
  have p: "plainPath (js ''/Story-1'')" "plainPath (js ''/story-1'')"
    by (simp_all add: plainPath_def is_path_unit_def js_def char_defs)
  have lp: "toLowerCase (js ''/Story-1'') = toLowerCase (js ''/story-1'')"
    by (simp add: js_def toLowerCase_def char_defs)
  have r1: "readsPlainUrl URL_simple (js ''HTTP'') (js ''Example.COM'') (js ''/Story-1'' @ replicate 2 47)"
    by (simp add: readsPlainUrl_def URL_simple_def afterScheme_def js_def toLowerCase_def char_defs two)
  have r2: "readsPlainUrl URL_simple (js ''https'') (js ''example.com'') (js ''/story-1'' @ replicate 0 47)"
    by (simp add: readsPlainUrl_def URL_simple_def afterScheme_def js_def toLowerCase_def char_defs)
  have r: "readsPlainUrl URL_simple (js ''HTTP'') (js ''Example.COM'') (js ''/Story-1//'')"
      "readsPlainUrl URL_simple (js ''https'') (js ''example.com'') (js ''/story-1'')"
    using r1 r2 by (simp_all add: js_def two)
  have n: "normalizeUrlForHash URL_simple (Some (js ''HTTP://Example.COM/Story-1//'')) = js ''example.com/story-1''"
      "normalizeUrlForHash URL_simple (Some (js ''https://example.com/story-1'')) = js ''example.com/story-1''"
    by (simp_all add: normalizeUrlForHash_def URL_simple_def afterScheme_def urlArgument_def js_def
        toLowerCase_def stripTrailingSlashes_def char_defs)
  have e: "hashStr sha (normalizeUrlForHash URL_simple (Some (js ''HTTP://Example.COM/Story-1//'')))
       = hashStr sha (normalizeUrlForHash URL_simple (Some (js ''https://example.com/story-1'')))"
    unfolding a b
    by (rule conjunct2[OF normalizeUrlForHash_spellings[OF s h lh p lp r1 r2]])
  show "isHttpScheme (js ''HTTP'') \<and> isHttpScheme (js ''https'')
     \<and> plainHost (js ''Example.COM'') \<and> plainHost (js ''example.com'')
     \<and> plainPath (js ''/Story-1'') \<and> plainPath (js ''/story-1'')
     \<and> readsPlainUrl URL_simple (js ''HTTP'') (js ''Example.COM'') (js ''/Story-1//'')
     \<and> readsPlainUrl URL_simple (js ''https'') (js ''example.com'') (js ''/story-1'')
     \<and> normalizeUrlForHash URL_simple (Some (js ''HTTP://Example.COM/Story-1//'')) = js ''example.com/story-1''
     \<and> normalizeUrlForHash URL_simple (Some (js ''https://example.com/story-1'')) = js ''example.com/story-1''
     \<and> hashStr sha (normalizeUrlForHash URL_simple (Some (js ''HTTP://Example.COM/Story-1//'')))
       = hashStr sha (normalizeUrlForHash URL_simple (Some (js ''https://example.com/story-1'')))"
    using s h p r n e by simp
qed

text \<open>
  The claim as stated fails on the \<^verbatim>\<open>www.\<close> prefix: \<^verbatim>\<open>normalizeUrlForHash\<close> joins the
  \<^verbatim>\<open>hostname\<close> and the \<^verbatim>\<open>pathname\<close> of the parsed URL and strips nothing from the host.
\<close>

theorem normalizeUrlForHash_www_counterexample:
  "normalizeUrlForHash URL_simple (Some (js ''https://www.example.com/a'')) = js ''www.example.com/a''
   \<and> normalizeUrlForHash URL_simple (Some (js ''https://example.com/a'')) = js ''example.com/a''
   \<and> normalizeUrlForHash URL_simple (Some (js ''https://www.example.com/a''))
       \<noteq> normalizeUrlForHash URL_simple (Some (js ''https://example.com/a''))"
  by (simp add: normalizeUrlForHash_def URL_simple_def afterScheme_def urlArgument_def js_def
      toLowerCase_def stripTrailingSlashes_def char_defs)

section \<open>Properties of the deduplication of synthesized items\<close>

lemma replaceFirst_subset: "set (replaceFirst old new xs) \<subseteq> insert new (set xs)"
  by (induction xs) auto

lemma replaceFirst_hot:
  "length (filter isHot (replaceFirst old new xs))
     \<le> length (filter isHot xs) + (if isHot new then 1 else 0)"
  by (induction xs) auto

lemma dedupStep_cases:
  "snd (dedupStep P st i) = snd st
   \<or> snd (dedupStep P st i) = snd st @ [i]
   \<or> (\<exists>old. snd (dedupStep P st i) = replaceFirst old i (snd st))"
  unfolding dedupStep_def Let_def
  by (auto split: option.splits)

lemma dedupStep_subset: "set (snd (dedupStep P st i)) \<subseteq> insert i (set (snd st))"
proof -
  consider "snd (dedupStep P st i) = snd st" | "snd (dedupStep P st i) = snd st @ [i]"
    | old where "snd (dedupStep P st i) = replaceFirst old i (snd st)"
    using dedupStep_cases[of P st i] by blast
  then show ?thesis
  proof cases
    case 3
    then show ?thesis using replaceFirst_subset[of old i "snd st"] by simp
  qed auto
qed

lemma dedupStep_hot:
  "length (filter isHot (snd (dedupStep P st i)))
     \<le> length (filter isHot (snd st)) + (if isHot i then 1 else 0)"
proof -
  consider "snd (dedupStep P st i) = snd st" | "snd (dedupStep P st i) = snd st @ [i]"
    | old where "snd (dedupStep P st i) = replaceFirst old i (snd st)"
    using dedupStep_cases[of P st i] by blast
  then show ?thesis
  proof cases
    case 3
    then show ?thesis using replaceFirst_hot[of old i "snd st"] by simp
  qed auto
qed

lemma foldl_dedupStep_subset:
  "set (snd (foldl (dedupStep P) st items)) \<subseteq> set (snd st) \<union> set items"
proof (induction items arbitrary: st)
  case Nil
  show ?case by simp
next
  case (Cons i items)
  show ?case
    using Cons.IH[of "dedupStep P st i"] dedupStep_subset[of P st i] by auto
qed

lemma foldl_dedupStep_hot:
  "length (filter isHot (snd (foldl (dedupStep P) st items)))
     \<le> length (filter isHot (snd st)) + length (filter isHot items)"
proof (induction items arbitrary: st)
  case Nil
  show ?case by simp
next
  case (Cons i items)
  show ?case
    using Cons.IH[of "dedupStep P st i"] dedupStep_hot[of P st i] by auto
qed

lemma deduplicateItems_subset: "set (deduplicateItems P items) \<subseteq> set items"
  unfolding deduplicateItems_def using foldl_dedupStep_subset[of P "([], [])" items] by simp

lemma deduplicateItems_hot:
  "length (filter isHot (deduplicateItems P items)) \<le> length (filter isHot items)"
  unfolding deduplicateItems_def using foldl_dedupStep_hot[of P "([], [])" items] by simp

lemma replaceFirst_absent: "old \<notin> set xs \<Longrightarrow> replaceFirst old new xs = xs"
  by (induction xs) auto

lemma replaceFirst_keys:
  assumes "old \<in> set xs" and "distinct (map f xs)"
  shows "\<exists>ys zs. xs = ys @ old # zs \<and> replaceFirst old new xs = ys @ new # zs \<and> old \<notin> set ys"
  using assms
proof (induction xs)
  case Nil
  then show ?case by simp
next
  case (Cons x xs)
  show ?case
  proof (cases "x = old")
    case True
    then show ?thesis by (intro exI[of _ "[]"] exI[of _ xs]) simp
  next
    case False
    then obtain ys zs where "xs = ys @ old # zs" "replaceFirst old new xs = ys @ new # zs" "old \<notin> set ys"
      using Cons by auto
    then show ?thesis using False
      by (intro exI[of _ "x # ys"] exI[of _ zs]) simp
  qed
qed

lemma find_mem: "find Q xs = Some e \<Longrightarrow> e \<in> set xs"
  by (auto simp: find_Some_iff)

lemma dedupInv_push:
  assumes inv: "dedupInv P (seen, result)" and new: "urlKey P i \<notin> fst ` set seen"
  shows "dedupInv P (mapSet (urlKey P i) i seen, result @ [i])"
proof -
  have ms: "mapSet (urlKey P i) i seen = seen @ [(urlKey P i, i)]"
    using new by (simp add: mapSet_def)
  show ?thesis
    using inv new unfolding dedupInv_def ms by auto
qed

lemma dedupInv_replace_same:
  assumes inv: "dedupInv P (seen, result)" and e: "map_of seen (urlKey P i) = Some old"
  shows "dedupInv P (mapSet (urlKey P i) i seen, replaceFirst old i result)"
proof -
  let ?k = "urlKey P i"
  have mem: "(?k, old) \<in> set seen" using e by (rule map_of_SomeD)
  then have old: "old \<in> set result" "urlKey P old = ?k"
    using inv unfolding dedupInv_def by auto
  have d: "distinct (map (urlKey P) result)" using inv unfolding dedupInv_def by simp
  obtain ys zs where r0: "result = ys @ old # zs" "replaceFirst old i result = ys @ i # zs"
    using replaceFirst_keys[OF old(1) d] by blast
  note r = r0(1) r0(2)[unfolded r0(1)]
  have keys: "map (urlKey P) (replaceFirst old i result) = map (urlKey P) result"
    unfolding r using old(2) by simp
  have ms: "mapSet ?k i seen = map (\<lambda>(k', v'). if k' = ?k then (k', i) else (k', v')) seen"
    using mem by (force simp: mapSet_def)
  have fsts: "fst ` set (mapSet ?k i seen) = fst ` set seen"
    unfolding ms by (force simp: image_iff split: prod.splits if_splits)
  have d': "distinct (map (urlKey P) (replaceFirst old i result))"
    unfolding keys by (rule d)
  have ks: "urlKey P ` set (replaceFirst old i result) = fst ` set (mapSet ?k i seen)"
  proof -
    have "urlKey P ` set (replaceFirst old i result) = set (map (urlKey P) (replaceFirst old i result))"
      by simp
    also have "\<dots> = set (map (urlKey P) result)" unfolding keys ..
    also have "\<dots> = fst ` set seen" using inv unfolding dedupInv_def by simp
    finally show ?thesis unfolding fsts .
  qed
  have ents: "\<forall>x \<in> set (mapSet ?k i seen). fst x = urlKey P (snd x) \<and> snd x \<in> set (replaceFirst old i result)"
  proof
    fix x assume "x \<in> set (mapSet ?k i seen)"
    then obtain k' v' where kv: "(k', v') \<in> set seen"
      and x: "x = (if k' = ?k then (k', i) else (k', v'))"
      unfolding ms by auto
    show "fst x = urlKey P (snd x) \<and> snd x \<in> set (replaceFirst old i result)"
    proof (cases "k' = ?k")
      case True
      then show ?thesis using x r by simp
    next
      case False
      have v: "k' = urlKey P v'" "v' \<in> set result"
        using inv kv unfolding dedupInv_def by auto
      then have "v' \<noteq> old" using False old(2) by auto
      then have "v' \<in> set (replaceFirst old i result)" using v(2) unfolding r by auto
      then show ?thesis using x False v(1) by simp
    qed
  qed
  show ?thesis unfolding dedupInv_def using d' ks ents by simp
qed

lemma dedupInv_replace_similar:
  assumes inv: "dedupInv P (seen, result)" and new: "urlKey P i \<notin> fst ` set seen"
    and e: "e \<in> set seen"
  shows "dedupInv P (mapSet (urlKey P i) i (mapDelete (fst e) seen), replaceFirst (snd e) i result)"
proof -
  let ?k = "urlKey P i" and ?old = "snd e"
  have old: "?old \<in> set result" "fst e = urlKey P ?old"
    using inv e unfolding dedupInv_def by auto
  have d: "distinct (map (urlKey P) result)" using inv unfolding dedupInv_def by simp
  have keyset: "urlKey P ` set result = fst ` set seen" using inv unfolding dedupInv_def by simp
  obtain ys zs where r0: "result = ys @ ?old # zs" "replaceFirst ?old i result = ys @ i # zs"
    using replaceFirst_keys[OF old(1) d] by blast
  note r = r0(1) r0(2)[unfolded r0(1)]
  have knew: "?k \<notin> urlKey P ` set result" using new keyset by simp
  have d': "distinct (map (urlKey P) (replaceFirst ?old i result))"
    using d knew unfolding r by auto
  have del: "fst ` set (mapDelete (fst e) seen) = fst ` set seen - {fst e}"
    by (force simp: mapDelete_def image_iff)
  have "?k \<notin> fst ` set (mapDelete (fst e) seen)" using new del by simp
  then have ms: "mapSet ?k i (mapDelete (fst e) seen) = mapDelete (fst e) seen @ [(?k, i)]"
    by (simp add: mapSet_def)
  have others: "urlKey P ` (set ys \<union> set zs) = urlKey P ` set result - {fst e}"
    using d old(2) unfolding r(1) by (auto simp: image_iff)
  have "urlKey P ` set (replaceFirst ?old i result) = insert ?k (urlKey P ` (set ys \<union> set zs))"
    unfolding r by auto
  also have "\<dots> = insert ?k (fst ` set seen - {fst e})"
    unfolding others keyset ..
  also have "\<dots> = fst ` set (mapSet ?k i (mapDelete (fst e) seen))"
    unfolding ms del[symmetric] by simp
  finally have ks: "urlKey P ` set (replaceFirst ?old i result)
      = fst ` set (mapSet ?k i (mapDelete (fst e) seen))" .
  have ents: "\<forall>x \<in> set (mapSet ?k i (mapDelete (fst e) seen)).
      fst x = urlKey P (snd x) \<and> snd x \<in> set (replaceFirst ?old i result)"
  proof
    fix x assume "x \<in> set (mapSet ?k i (mapDelete (fst e) seen))"
    then consider "x = (?k, i)" | "x \<in> set seen" "fst x \<noteq> fst e"
      unfolding ms by (auto simp: mapDelete_def)
    then show "fst x = urlKey P (snd x) \<and> snd x \<in> set (replaceFirst ?old i result)"
    proof cases
      case 1
      then show ?thesis unfolding r by simp
    next
      case 2
      then have v: "fst x = urlKey P (snd x)" "snd x \<in> set result"
        using inv unfolding dedupInv_def by auto
      then have "snd x \<noteq> ?old" using 2(2) old(2) by auto
      then have "snd x \<in> set (replaceFirst ?old i result)" using v(2) unfolding r by auto
      then show ?thesis using v(1) by simp
    qed
  qed
  show ?thesis unfolding dedupInv_def using d' ks ents by simp
qed

lemma dedupStep_inv:
  assumes "dedupInv P st"
  shows "dedupInv P (dedupStep P st i)"
proof -
  obtain seen result where st: "st = (seen, result)" by (cases st)
  have inv: "dedupInv P (seen, result)" using assms st by simp
  have k: "normalizeUrl P (url i) = urlKey P i" by (simp add: urlKey_def)
  show ?thesis
  proof (cases "map_of seen (urlKey P i)")
    case (Some old)
    then show ?thesis
      using dedupInv_replace_same[OF inv Some] inv
      by (simp add: dedupStep_def st k)
  next
    case None
    then have new: "urlKey P i \<notin> fst ` set seen"
      by (simp add: map_of_eq_None_iff)
    show ?thesis
    proof (cases "find (\<lambda>e. titlesAreSimilar (title i) (title (snd e))) seen")
      case nf: None
      then show ?thesis
        using dedupInv_push[OF inv new] None by (simp add: dedupStep_def st k)
    next
      case (Some e)
      then have "e \<in> set seen" by (rule find_mem)
      from dedupInv_replace_similar[OF inv new this] inv None Some
      show ?thesis by (simp add: dedupStep_def st k)
    qed
  qed
qed

lemma foldl_dedupStep_inv:
  "dedupInv P st \<Longrightarrow> dedupInv P (foldl (dedupStep P) st items)"
  by (induction items arbitrary: st) (simp_all add: dedupStep_inv)

text \<open>
  The entries of the returned list have pairwise distinct normalized URLs. So no two of
  them have equal fields, and comparing items by their fields in \<open>replaceFirst\<close> finds
  the entry that \<^verbatim>\<open>indexOf\<close> finds by identity.
\<close>

lemma deduplicateItems_distinct_urls:
  "distinct (map (\<lambda>i. normalizeUrl P (url i)) (deduplicateItems P items))"
proof -
  have "dedupInv P ([], [])" by (simp add: dedupInv_def)
  from foldl_dedupStep_inv[OF this, of items]
  have "distinct (map (urlKey P) (deduplicateItems P items))"
    by (simp add: dedupInv_def deduplicateItems_def)
  then show ?thesis by (simp add: urlKey_def[abs_def])
qed

lemma deals_similar:
  "titlesAreSimilar (title dealB) (title dealA) = False"
  "titlesAreSimilar (title dealC) (title dealA) = True"
  "titlesAreSimilar (title dealC) (title dealB) = True"
  by (simp_all add: dealA_def dealB_def dealC_def title_defs js_def char_defs)

lemma deals_urls:
  "normalizeUrl URL_simple (url dealA) = js ''a.example/1''"
  "normalizeUrl URL_simple (url dealB) = js ''b.example/2''"
  "normalizeUrl URL_simple (url dealC) = js ''c.example/3''"
  by (simp_all add: dealA_def dealB_def dealC_def url_defs js_def char_defs)

lemma deals_hot: "\<not> isHot dealA" "\<not> isHot dealB" "isHot dealC"
  by (simp_all add: dealA_def dealB_def dealC_def isHot_def hotCategory_def generalCategory_def)

text \<open>
  C8, at a failing input. Three items with three different URLs: the titles of \<open>dealA\<close>
  and \<open>dealB\<close> are not similar, the title of \<open>dealC\<close> is similar to both, and only
  \<open>dealC\<close> is in the important category. \<open>dealC\<close> takes the place of \<open>dealA\<close>, the first
  similar entry, and the loop stops there: the returned list holds \<open>dealC\<close> and \<open>dealB\<close>,
  two distinct items with similar titles.
\<close>

theorem deduplicateItems_leaves_similar_titles:
  "deduplicateItems URL_simple [dealA, dealB, dealC] = [dealC, dealB]
   \<and> titlesAreSimilar (title dealC) (title dealB)
   \<and> dealC \<noteq> dealB
   \<and> \<not> titlesAreSimilar (title dealA) (title dealB)"
proof -
  have keys: "js ''a.example/1'' \<noteq> js ''b.example/2''" "js ''c.example/3'' \<noteq> js ''a.example/1''"
     "js ''c.example/3'' \<noteq> js ''b.example/2''"
    by (simp_all add: js_def)
  have "deduplicateItems URL_simple [dealA, dealB, dealC] = [dealC, dealB]"
    using keys
    by (simp add: deduplicateItems_def dedupStep_def deals_similar deals_urls deals_hot
        mapSet_def mapDelete_def)
  moreover have "dealC \<noteq> dealB"
    by (simp add: dealB_def dealC_def js_def)
  moreover have "\<not> titlesAreSimilar (title dealA) (title dealB)"
    by (simp add: dealA_def dealB_def title_defs js_def char_defs)
  ultimately show ?thesis using deals_similar by simp
qed

section \<open>Properties of the digest synthesizer\<close>

lemma textField_truthy:
  "jsonTruthy v \<Longrightarrow> textField v = Some t \<Longrightarrow> truthy t"
  by (auto simp: jsonTruthy_def textField_def truthy_def orEmpty_def split: option.splits json.splits)

lemma toItem_valid:
  assumes "isValidElement v" and "toItem v = Some i"
  shows "truthy (title i) \<and> truthy (url i) \<and> truthy (summary i)"
proof -
  from assms(2) obtain t u s c where
    f: "textField (property v (js ''title'')) = Some t" "textField (property v (js ''url'')) = Some u"
       "textField (property v (js ''summary'')) = Some s"
    and i: "i = \<lparr> title = t, url = u, summary = s, category = c, pubDate = None \<rparr>"
    by (auto simp: toItem_def split: option.splits)
  show ?thesis
    using assms(1) f textField_truthy unfolding i isValidElement_def by auto
qed

lemma tryCandidate_valid:
  assumes "tryCandidate J c = Accepted valid"
  shows "list_all validItem valid"
proof -
  from assms obtain elems where
    v: "valid = map (\<lambda>v. the (toItem v)) (filter isValidElement elems)"
    and m: "list_all (\<lambda>v. toItem v \<noteq> None) (filter isValidElement elems)"
    unfolding tryCandidate_def Let_def
    by (auto split: option.splits if_splits)
  have "validItem (the (toItem e))" if "e \<in> set (filter isValidElement elems)" for e
  proof -
    from that m obtain i where "toItem e = Some i" by (auto simp: list_all_iff)
    moreover from that have "isValidElement e" by simp
    ultimately show ?thesis using toItem_valid[of e i] by (simp add: validItem_def)
  qed
  then show ?thesis unfolding v by (auto simp: list_all_iff)
qed

lemma firstAccepted_valid:
  "firstAccepted J cs = Accepted valid \<Longrightarrow> list_all validItem valid"
proof (induction cs)
  case Nil
  then show ?case by simp
next
  case (Cons c cs)
  then show ?case
    using tryCandidate_valid[of J c valid]
    by (cases "tryCandidate J c") auto
qed

lemma generateDigest_Structured:
  assumes "generateDigest J P llm allItems dt = Inr (Structured items)"
  shows "\<exists>content valid. llm allItems dt = Inr content
           \<and> firstAccepted J (jsonCandidates (trim (orEmpty content))) = Accepted valid
           \<and> items = deduplicateItems P valid"
  using assms unfolding generateDigest_def Let_def
  by (auto split: sum.splits if_splits attempt.splits)

lemma candidates_head: "c \<noteq> [] \<Longrightarrow> \<exists>rest. jsonCandidates c = c # rest"
  by (simp add: jsonCandidates_def)

lemma firstAccepted_head:
  "c \<noteq> [] \<Longrightarrow> tryCandidate J c = Accepted xs \<Longrightarrow> firstAccepted J (jsonCandidates c) = Accepted xs"
  using candidates_head[of c] by auto

lemma fabricated_trim: "trim fabricatedResponse = fabricatedResponse" "fabricatedResponse \<noteq> []"
  by (simp_all add: fabricatedResponse_def trim_def js_def char_defs)

lemma fabricated_parses:
  \<open>JSON_parse fabricatedResponse =
     Some (JArray [JObject [(js ''title'', JString (js ''Invented'')),
        (js ''url'', JString (js ''https://fabricated.example/x'')),
        (js ''summary'', JString (js ''Made up.'')), (js ''category'', JString (js ''general''))]])\<close>
  by (simp add: fabricatedResponse_def json_defs js_def char_defs)

lemma fabricated_accepted: "tryCandidate JSON_parse fabricatedResponse = Accepted [fabricatedItem]"
  unfolding tryCandidate_def fabricated_parses
  by (simp add: isValidElement_def property_def jsonTruthy_def textField_def toItem_def
      fabricatedItem_def js_def)

lemma fabricated_digest:
  "generateDigest JSON_parse URL_simple (answers fabricatedResponse) [story] (js ''4h'')
     = Inr (Structured [fabricatedItem])"
  using firstAccepted_head[OF fabricated_trim(2) fabricated_accepted]
  by (simp add: generateDigest_def answers_def orEmpty_def fabricated_trim dedup_defs)

text \<open>
  C3, as amended. Every structured item that \<^verbatim>\<open>generateDigest\<close> returns is one of the
  elements of the parsed model response that have a title, a URL and a summary, all
  non-empty. Its URL is not compared with the URLs of the fetched items: that every URL
  come from the input is asked of the model in the prompt and checked nowhere.
\<close>

theorem generateDigest_items_from_response:
  assumes "generateDigest J P llm allItems dt = Inr (Structured items)"
  shows "\<exists>content valid. llm allItems dt = Inr content
           \<and> firstAccepted J (jsonCandidates (trim (orEmpty content))) = Accepted valid
           \<and> set items \<subseteq> set valid
           \<and> list_all validItem valid"
proof -
  from generateDigest_Structured[OF assms] obtain content valid where
    c: "llm allItems dt = Inr content"
    and v: "firstAccepted J (jsonCandidates (trim (orEmpty content))) = Accepted valid"
    and i: "items = deduplicateItems P valid" by blast
  have "set items \<subseteq> set valid" unfolding i by (rule deduplicateItems_subset)
  with c v firstAccepted_valid[OF v] show ?thesis by blast
qed

theorem generateDigest_items_from_response_witness:
  "generateDigest JSON_parse URL_simple (answers fabricatedResponse) [story] (js ''4h'')
     = Inr (Structured [fabricatedItem])
   \<and> validItem fabricatedItem"
proof -
  from generateDigest_items_from_response[OF fabricated_digest]
  obtain content valid where "set [fabricatedItem] \<subseteq> set valid" "list_all validItem valid"
    by blast
  then have "validItem fabricatedItem" by (auto simp: list_all_iff)
  with fabricated_digest show ?thesis by simp
qed

text \<open>
  The claim as stated fails: the only fetched item is the story, the model answers with
  an item at another URL, and that item is returned.
\<close>

theorem generateDigest_fabricated_counterexample:
  "generateDigest JSON_parse URL_simple (answers fabricatedResponse) [story] (js ''4h'')
     = Inr (Structured [fabricatedItem])
   \<and> url fabricatedItem \<notin> url ` set [story]"
  using fabricated_digest by (simp add: fabricatedItem_def story_def js_def)

lemma hot_titles:
  "\<not> titlesAreSimilar (Some (js ''Bravo'')) (Some (js ''Alpha''))"
  "\<not> titlesAreSimilar (Some (js ''Delta'')) (Some (js ''Alpha''))"
  "\<not> titlesAreSimilar (Some (js ''Delta'')) (Some (js ''Bravo''))"
  "\<not> titlesAreSimilar (Some (js ''Gamma'')) (Some (js ''Alpha''))"
  "\<not> titlesAreSimilar (Some (js ''Gamma'')) (Some (js ''Bravo''))"
  "\<not> titlesAreSimilar (Some (js ''Gamma'')) (Some (js ''Delta''))"
  "\<not> titlesAreSimilar (Some (js ''Sigma'')) (Some (js ''Alpha''))"
  "\<not> titlesAreSimilar (Some (js ''Sigma'')) (Some (js ''Bravo''))"
  "\<not> titlesAreSimilar (Some (js ''Sigma'')) (Some (js ''Delta''))"
  "\<not> titlesAreSimilar (Some (js ''Sigma'')) (Some (js ''Gamma''))"
  by (simp_all add: title_defs js_def char_defs)

lemma hot_urls:
  "normalizeUrl URL_simple (Some (js ''https://e.example/1'')) = js ''e.example/1''"
  "normalizeUrl URL_simple (Some (js ''https://e.example/2'')) = js ''e.example/2''"
  "normalizeUrl URL_simple (Some (js ''https://e.example/3'')) = js ''e.example/3''"
  "normalizeUrl URL_simple (Some (js ''https://e.example/4'')) = js ''e.example/4''"
  "normalizeUrl URL_simple (Some (js ''https://e.example/5'')) = js ''e.example/5''"
  by (simp_all add: url_defs js_def char_defs)

lemma fiveHot_trim: "trim fiveHotResponse = fiveHotResponse" "fiveHotResponse \<noteq> []"
  by (simp_all add: fiveHotResponse_def hotItemText_def hotCategory_def trim_def js_def char_defs)

lemma fiveHot_accepted: "tryCandidate JSON_parse fiveHotResponse = Accepted fiveHot"
  by (simp add: tryCandidate_def fiveHotResponse_def hotItemText_def hotCategory_def json_defs
      isValidElement_def property_def jsonTruthy_def textField_def toItem_def
      fiveHot_def hotItem_def js_def char_defs)

lemma fiveHot_dedup: "deduplicateItems URL_simple fiveHot = fiveHot"
proof -
  have keys: "js ''e.example/1'' \<noteq> js ''e.example/2''" "js ''e.example/1'' \<noteq> js ''e.example/3''"
    "js ''e.example/1'' \<noteq> js ''e.example/4''" "js ''e.example/1'' \<noteq> js ''e.example/5''"
    "js ''e.example/2'' \<noteq> js ''e.example/3''" "js ''e.example/2'' \<noteq> js ''e.example/4''"
    "js ''e.example/2'' \<noteq> js ''e.example/5''" "js ''e.example/3'' \<noteq> js ''e.example/4''"
    "js ''e.example/3'' \<noteq> js ''e.example/5''" "js ''e.example/4'' \<noteq> js ''e.example/5''"
    by (simp_all add: js_def)
  show ?thesis
    using keys keys[symmetric]
    by (simp add: deduplicateItems_def dedupStep_def mapSet_def fiveHot_def hotItem_def
        hot_urls hot_titles)
qed

lemma fiveHot_digest:
  "generateDigest JSON_parse URL_simple (answers fiveHotResponse) [story] (js ''4h'')
     = Inr (Structured fiveHot)"
  using firstAccepted_head[OF fiveHot_trim(2) fiveHot_accepted]
  by (simp add: generateDigest_def answers_def orEmpty_def fiveHot_trim fiveHot_dedup)

lemma twoHot_trim: "trim twoHotResponse = twoHotResponse" "twoHotResponse \<noteq> []"
  by (simp_all add: twoHotResponse_def hotItemText_def hotCategory_def trim_def js_def char_defs)

lemma twoHot_accepted:
  "tryCandidate JSON_parse twoHotResponse
     = Accepted [hotItem ''Alpha'' ''https://e.example/1'', hotItem ''Bravo'' ''https://e.example/1'']"
  by (simp add: tryCandidate_def twoHotResponse_def hotItemText_def hotCategory_def json_defs
      isValidElement_def property_def jsonTruthy_def textField_def toItem_def
      hotItem_def js_def char_defs)

lemma twoHot_dedup:
  "deduplicateItems URL_simple [hotItem ''Alpha'' ''https://e.example/1'', hotItem ''Bravo'' ''https://e.example/1'']
     = [hotItem ''Alpha'' ''https://e.example/1'']"
  by (simp add: deduplicateItems_def dedupStep_def mapSet_def hotItem_def hot_urls isHot_def)

lemma twoHot_digest:
  "generateDigest JSON_parse URL_simple (answers twoHotResponse) [story] (js ''4h'')
     = Inr (Structured [hotItem ''Alpha'' ''https://e.example/1''])"
  using firstAccepted_head[OF twoHot_trim(2) twoHot_accepted]
  by (simp add: generateDigest_def answers_def orEmpty_def twoHot_trim twoHot_dedup)

text \<open>
  C4, as amended. The structured list that \<^verbatim>\<open>generateDigest\<close> returns holds at most as
  many items of the important category as the parsed model response does:
  deduplication adds none. The bound of four is asked of the model in the prompt and
  applied nowhere.
\<close>

theorem generateDigest_hot_count:
  assumes "generateDigest J P llm allItems dt = Inr (Structured items)"
  shows "\<exists>content valid. llm allItems dt = Inr content
           \<and> firstAccepted J (jsonCandidates (trim (orEmpty content))) = Accepted valid
           \<and> length (filter isHot items) \<le> length (filter isHot valid)"
proof -
  from generateDigest_Structured[OF assms] obtain content valid where
    c: "llm allItems dt = Inr content"
    and v: "firstAccepted J (jsonCandidates (trim (orEmpty content))) = Accepted valid"
    and i: "items = deduplicateItems P valid" by blast
  have "length (filter isHot items) \<le> length (filter isHot valid)"
    unfolding i by (rule deduplicateItems_hot)
  with c v show ?thesis by blast
qed

theorem generateDigest_hot_count_witness:
  "generateDigest JSON_parse URL_simple (answers twoHotResponse) [story] (js ''4h'')
     = Inr (Structured [hotItem ''Alpha'' ''https://e.example/1''])
   \<and> firstAccepted JSON_parse (jsonCandidates (trim (orEmpty (Some twoHotResponse))))
     = Accepted [hotItem ''Alpha'' ''https://e.example/1'', hotItem ''Bravo'' ''https://e.example/1'']
   \<and> length (filter isHot [hotItem ''Alpha'' ''https://e.example/1''])
     \<le> length (filter isHot [hotItem ''Alpha'' ''https://e.example/1'', hotItem ''Bravo'' ''https://e.example/1''])"
proof -
  let ?two = "[hotItem ''Alpha'' ''https://e.example/1'', hotItem ''Bravo'' ''https://e.example/1'']"
  from generateDigest_hot_count[OF twoHot_digest]
  obtain content valid where c: "answers twoHotResponse [story] (js ''4h'') = Inr content"
    and v: "firstAccepted JSON_parse (jsonCandidates (trim (orEmpty content))) = Accepted valid"
    and n: "length (filter isHot [hotItem ''Alpha'' ''https://e.example/1'']) \<le> length (filter isHot valid)"
    by blast
  from c have content: "content = Some twoHotResponse" by (simp add: answers_def)
  have a: "firstAccepted JSON_parse (jsonCandidates (trim (orEmpty (Some twoHotResponse)))) = Accepted ?two"
    using firstAccepted_head[OF twoHot_trim(2) twoHot_accepted]
    by (simp add: orEmpty_def twoHot_trim)
  with v content have "valid = ?two" by simp
  with n a twoHot_digest show ?thesis by simp
qed

text \<open>
  The claim as stated fails: the model answers with five items of the important
  category, with five URLs and five dissimilar titles, and all five are returned.
\<close>

theorem generateDigest_five_hot_counterexample:
  "generateDigest JSON_parse URL_simple (answers fiveHotResponse) [story] (js ''4h'')
     = Inr (Structured fiveHot)
   \<and> length (filter isHot fiveHot) = 5"
  using fiveHot_digest by (simp add: fiveHot_def hotItem_def isHot_def)

lemma scenario_candidates: "jsonCandidates scenario = [scenario, scenario, scenario, scenario, scenario]"
  by (simp add: scenario_def cand_defs fix_defs js_def char_defs)

lemma scenario_invalid: "JSON_parse scenario = None"
  by (simp add: scenario_def json_defs js_def char_defs)

lemma scenario_trim: "trim scenario = scenario" "scenario \<noteq> []"
  by (simp_all add: scenario_def trim_def js_def char_defs)

lemma lines_trim: "trim scenarioLines = scenarioLines" "scenarioLines \<noteq> []"
  by (simp_all add: scenarioLines_def trim_def js_def char_defs)

lemma lines_repaired: "fixLlmJsonQuotes scenarioLines = repairedLines"
  by (simp add: scenarioLines_def repairedLines_def fix_defs js_def char_defs)

lemma lines_differ: "repairedLines \<noteq> scenarioLines"
  by (simp add: scenarioLines_def repairedLines_def js_def)

lemma lines_candidates: "\<exists>rest. jsonCandidates scenarioLines = scenarioLines # repairedLines # rest"
  by (simp add: jsonCandidates_def lines_repaired lines_differ lines_trim(2))

lemma lines_invalid: "JSON_parse scenarioLines = None"
  by (simp add: scenarioLines_def json_defs js_def char_defs)

lemma repaired_parses:
  \<open>JSON_parse repairedLines =
     Some (JArray [JObject [(js ''title'', JString (js ''A'')), (js ''url'', JString (js ''http://x'')),
        (js ''summary'', JString (js ''He said "hello"'')), (js ''category'', JString (js ''general'')),
        (js ''source'', JString (js ''s''))]])\<close>
  by (simp add: repairedLines_def json_defs js_def char_defs)

lemma repaired_accepted: "tryCandidate JSON_parse repairedLines = Accepted [quotedItem]"
  unfolding tryCandidate_def repaired_parses
  by (simp add: isValidElement_def property_def jsonTruthy_def textField_def toItem_def quotedItem_def js_def)

lemma lines_rejected: "tryCandidate JSON_parse scenarioLines = Rejected"
  by (simp add: tryCandidate_def lines_invalid)

lemma quoted_dedup: "deduplicateItems URL_simple [quotedItem] = [quotedItem]"
  by (simp add: dedup_defs)

text \<open>
  C5, as amended. When the raw model output of the scenario has one member on each
  line, the layout that the line pattern of \<^verbatim>\<open>fixLlmJsonQuotes\<close> matches, the raw text does
  not parse, the repair puts a backslash before each of the two inner quotes, and the
  repaired text yields exactly one valid item, whose summary holds the two quotes.
\<close>

theorem quote_repair_on_lines:
  "fixLlmJsonQuotes scenarioLines = repairedLines
   \<and> JSON_parse scenarioLines = None
   \<and> generateDigest JSON_parse URL_simple (answers scenarioLines) [story] (js ''4h'')
       = Inr (Structured [quotedItem])"
proof -
  obtain rest where c: "jsonCandidates scenarioLines = scenarioLines # repairedLines # rest"
    using lines_candidates by blast
  have "firstAccepted JSON_parse (jsonCandidates scenarioLines) = Accepted [quotedItem]"
    unfolding c by (simp add: repaired_accepted lines_rejected)
  then have "generateDigest JSON_parse URL_simple (answers scenarioLines) [story] (js ''4h'')
       = Inr (Structured [quotedItem])"
    by (simp add: generateDigest_def answers_def orEmpty_def lines_trim quoted_dedup)
  then show ?thesis using lines_repaired lines_invalid by simp
qed

theorem quote_repair_on_lines_witness:
  "generateDigest JSON_parse URL_simple (answers scenarioLines) [story] (js ''4h'')
     = Inr (Structured [quotedItem])"
  using quote_repair_on_lines by simp

text \<open>
  The claim as stated fails: on the one-line text of the scenario no line starts with a
  member name, so the repair changes nothing; all five candidates are the raw text,
  which does not parse, and \<^verbatim>\<open>generateDigest\<close> falls back to the raw text.
\<close>

theorem quote_repair_scenario_counterexample:
  "jsonCandidates scenario = [scenario, scenario, scenario, scenario, scenario]
   \<and> JSON_parse scenario = None
   \<and> generateDigest JSON_parse URL_simple (answers scenario) [story] (js ''4h'') = Inr (RawText scenario)"
  by (simp add: generateDigest_def answers_def orEmpty_def scenario_trim scenario_candidates
      scenario_invalid tryCandidate_def)

section \<open>Properties of the deduplication before synthesis\<close>

lemma default_age: "MAX_ARTICLE_AGE_HOURS None None = Some 72"
  by (simp add: MAX_ARTICLE_AGE_HOURS_def parseInt10_def truthy_def orEmpty_def js_def char_defs)

lemma preDedupStep_stale:
  "isStale D now H i \<Longrightarrow>
   preDedupStep sha P D db h now H st i = st \<lparr> staleSkipped := staleSkipped st + 1 \<rparr>"
  by (simp add: preDedupStep_def)

lemma preDedupStep_deduped:
  "dedupedItems (preDedupStep sha P D db h now H st i) = dedupedItems st
   \<or> (\<not> isStale D now H i \<and> dedupedItems (preDedupStep sha P D db h now H st i) = dedupedItems st @ [i])"
  by (simp add: preDedupStep_def Let_def)

lemma preDedupStep_staleSkipped:
  "staleSkipped (preDedupStep sha P D db h now H st i)
     = staleSkipped st + (if isStale D now H i then 1 else 0)"
  by (simp add: preDedupStep_def Let_def)

lemma foldl_preDedup_no_stale:
  assumes "\<forall>i \<in> set (dedupedItems st). \<not> isStale D now H i"
  shows "\<forall>i \<in> set (dedupedItems (foldl (preDedupStep sha P D db h now H) st items)).
           \<not> isStale D now H i"
  using assms
proof (induction items arbitrary: st)
  case Nil
  then show ?case by simp
next
  case (Cons j items)
  have "\<forall>i \<in> set (dedupedItems (preDedupStep sha P D db h now H st j)). \<not> isStale D now H i"
    using preDedupStep_deduped[of sha P D db h now H st j] Cons.prems by auto
  from Cons.IH[OF this] show ?case by simp
qed

lemma foldl_preDedup_staleSkipped:
  "staleSkipped (foldl (preDedupStep sha P D db h now H) st items)
     = staleSkipped st + length (filter (isStale D now H) items)"
proof (induction items arbitrary: st)
  case Nil
  show ?case by simp
next
  case (Cons j items)
  show ?case
    using Cons.IH[of "preDedupStep sha P D db h now H st j"]
      preDedupStep_staleSkipped[of sha P D db h now H st j] by simp
qed

lemma foldl_preDedup_grows:
  "set (dedupedItems st) \<subseteq> set (dedupedItems (foldl (preDedupStep sha P D db h now H) st items))"
proof (induction items arbitrary: st)
  case Nil
  show ?case by simp
next
  case (Cons j items)
  have "set (dedupedItems st) \<subseteq> set (dedupedItems (preDedupStep sha P D db h now H st j))"
    using preDedupStep_deduped[of sha P D db h now H st j] by auto
  then show ?case
    using Cons.IH[of "preDedupStep sha P D db h now H st j"] by auto
qed

lemma preDedupStep_seen:
  "seenUrls (preDedupStep sha P D db h now H st j) \<subseteq> insert (batchNormUrl (url j)) (seenUrls st)"
  by (auto simp: preDedupStep_def Let_def)

lemma preDedupStep_keeps:
  assumes "\<not> isStale D now H i"
    and "\<not> (db \<noteq> None \<and> isItemPushedBefore sha P h i)"
    and "batchNormUrl (url i) = [] \<or> batchNormUrl (url i) \<notin> seenUrls st"
  shows "i \<in> set (dedupedItems (preDedupStep sha P D db h now H st i))"
  using assms by (auto simp: preDedupStep_def Let_def)

lemma foldl_preDedup_keeps:
  assumes "i \<in> set items"
    and "\<not> isStale D now H i"
    and "\<not> (db \<noteq> None \<and> isItemPushedBefore sha P h i)"
    and "\<forall>j \<in> set items. batchNormUrl (url j) = batchNormUrl (url i) \<longrightarrow> j = i"
    and "batchNormUrl (url i) = [] \<or> batchNormUrl (url i) \<notin> seenUrls st"
  shows "i \<in> set (dedupedItems (foldl (preDedupStep sha P D db h now H) st items))"
  using assms(1,4,5)
proof (induction items arbitrary: st)
  case Nil
  then show ?case by simp
next
  case (Cons j items)
  let ?st = "preDedupStep sha P D db h now H st j"
  show ?case
  proof (cases "j = i")
    case True
    have "i \<in> set (dedupedItems ?st)"
      unfolding True by (rule preDedupStep_keeps[OF assms(2,3) Cons.prems(3)])
    then show ?thesis
      using foldl_preDedup_grows[of ?st sha P D db h now H items] by auto
  next
    case False
    then have mem: "i \<in> set items" using Cons.prems(1) by simp
    have uniq: "\<forall>k \<in> set items. batchNormUrl (url k) = batchNormUrl (url i) \<longrightarrow> k = i"
      using Cons.prems(2) by simp
    have "batchNormUrl (url j) \<noteq> batchNormUrl (url i)"
      using Cons.prems(2) False by auto
    then have "batchNormUrl (url i) = [] \<or> batchNormUrl (url i) \<notin> seenUrls ?st"
      using Cons.prems(3) preDedupStep_seen[of sha P D db h now H st j] by auto
    from Cons.IH[OF mem uniq this] show ?thesis by simp
  qed
qed

lemma isStale_undated:
  "pubDate i = None \<or> D (orEmpty (pubDate i)) = None \<Longrightarrow> \<not> isStale D now H i"
  by (auto simp: isStale_def truthy_def orEmpty_def)

lemma isStale_old:
  "truthy (pubDate i) \<Longrightarrow> D (orEmpty (pubDate i)) = Some t \<Longrightarrow> H = Some hours
   \<Longrightarrow> hours * 3600 * 1000 < now - t \<Longrightarrow> isStale D now H i"
  by (simp add: isStale_def)

text \<open>
  C6. The staleness filter of the loop in \<^verbatim>\<open>main\<close>: the maximum age is 72 hours when it
  is not configured; an item whose date parses to a time more than the maximum age
  before \<open>now\<close> is never in the output, and \<^verbatim>\<open>staleSkipped\<close> counts exactly these items;
  an item whose date is missing or does not parse is never taken for stale, and it is
  in the output unless a later stage of the loop removes it (it is suppressed by the
  history, or another item of the batch has the same normalized URL).
\<close>

theorem staleness_filter:
  "MAX_ARTICLE_AGE_HOURS None None = Some 72
   \<and> (\<forall>i t hours. truthy (pubDate i) \<and> D (orEmpty (pubDate i)) = Some t \<and> H = Some hours
         \<and> hours * 3600 * 1000 < now - t
         \<longrightarrow> i \<notin> set (dedupedItems (preDedup sha P D db h now H items)))
   \<and> staleSkipped (preDedup sha P D db h now H items) = length (filter (isStale D now H) items)
   \<and> (\<forall>i. pubDate i = None \<or> D (orEmpty (pubDate i)) = None
         \<longrightarrow> \<not> isStale D now H i
           \<and> (i \<in> set items
                \<and> \<not> (db \<noteq> None \<and> isItemPushedBefore sha P h i)
                \<and> (\<forall>j \<in> set items. batchNormUrl (url j) = batchNormUrl (url i) \<longrightarrow> j = i)
              \<longrightarrow> i \<in> set (dedupedItems (preDedup sha P D db h now H items))))"
proof (intro conjI allI impI)
  show "MAX_ARTICLE_AGE_HOURS None None = Some 72" by (rule default_age)
next
  fix i :: item and t hours :: int
  assume a: "truthy (pubDate i) \<and> D (orEmpty (pubDate i)) = Some t \<and> H = Some hours
         \<and> hours * 3600 * 1000 < now - t"
  then have "isStale D now H i" using isStale_old[of i D t H hours now] by blast
  then show "i \<notin> set (dedupedItems (preDedup sha P D db h now H items))"
    unfolding preDedup_def
    using foldl_preDedup_no_stale[of "\<lparr> seenUrls = {}, dedupedItems = [], historySkipped = 0, staleSkipped = 0 \<rparr>"
        D now H sha P db h items]
    by auto
next
  show "staleSkipped (preDedup sha P D db h now H items) = length (filter (isStale D now H) items)"
    unfolding preDedup_def by (simp add: foldl_preDedup_staleSkipped)
next
  fix i :: item
  assume u: "pubDate i = None \<or> D (orEmpty (pubDate i)) = None"
  then show "\<not> isStale D now H i" by (rule isStale_undated)
next
  fix i :: item
  assume u: "pubDate i = None \<or> D (orEmpty (pubDate i)) = None"
    and k: "i \<in> set items \<and> \<not> (db \<noteq> None \<and> isItemPushedBefore sha P h i)
      \<and> (\<forall>j \<in> set items. batchNormUrl (url j) = batchNormUrl (url i) \<longrightarrow> j = i)"
  have ns: "\<not> isStale D now H i" using u by (rule isStale_undated)
  show "i \<in> set (dedupedItems (preDedup sha P D db h now H items))"
    unfolding preDedup_def
    by (rule foldl_preDedup_keeps[of i items D now H db sha P h]) (use k ns in auto)
qed

lemma example_batch_urls:
  "batchNormUrl (Some (js ''https://example.com/old'')) = js ''example.com/old''"
  "batchNormUrl (Some (js ''https://example.com/new'')) = js ''example.com/new''"
  "batchNormUrl (Some (js ''https://example.com/soon'')) = js ''example.com/soon''"
  by (simp_all add: batchNormUrl_def stripHttpWww_def stripTrailingSlashes_def truthy_def orEmpty_def
      toLowerCase_def js_def char_defs)

lemma emptyHistory_suppresses_nothing: "\<not> isItemPushedBefore sha P emptyHistory i"
  by (simp add: isItemPushedBefore_def emptyHistory_def)

theorem staleness_filter_witness:
  "\<forall>sha.
     datedItem (Some ''2024-01-01T00:00:00Z'') ''https://example.com/old''
       \<notin> set (dedupedItems (preDedup sha URL_simple exampleDates (Some (Database [])) emptyHistory
                 1704427200000 (MAX_ARTICLE_AGE_HOURS None None)
                 [datedItem (Some ''2024-01-01T00:00:00Z'') ''https://example.com/old'',
                  datedItem None ''https://example.com/new'',
                  datedItem (Some ''soon'') ''https://example.com/soon'']))
   \<and> datedItem None ''https://example.com/new''
       \<in> set (dedupedItems (preDedup sha URL_simple exampleDates (Some (Database [])) emptyHistory
                 1704427200000 (MAX_ARTICLE_AGE_HOURS None None)
                 [datedItem (Some ''2024-01-01T00:00:00Z'') ''https://example.com/old'',
                  datedItem None ''https://example.com/new'',
                  datedItem (Some ''soon'') ''https://example.com/soon'']))
   \<and> datedItem (Some ''soon'') ''https://example.com/soon''
       \<in> set (dedupedItems (preDedup sha URL_simple exampleDates (Some (Database [])) emptyHistory
                 1704427200000 (MAX_ARTICLE_AGE_HOURS None None)
                 [datedItem (Some ''2024-01-01T00:00:00Z'') ''https://example.com/old'',
                  datedItem None ''https://example.com/new'',
                  datedItem (Some ''soon'') ''https://example.com/soon'']))"
proof
  fix sha :: sha256
  let ?old = "datedItem (Some ''2024-01-01T00:00:00Z'') ''https://example.com/old''"
  let ?new = "datedItem None ''https://example.com/new''"
  let ?soon = "datedItem (Some ''soon'') ''https://example.com/soon''"
  let ?items = "[?old, ?new, ?soon]"
  let ?H = "MAX_ARTICLE_AGE_HOURS None None"
  let ?R = "preDedup sha URL_simple exampleDates (Some (Database [])) emptyHistory 1704427200000 ?H ?items"
  note main = staleness_filter[of exampleDates ?H 1704427200000 sha URL_simple "Some (Database [])"
      emptyHistory ?items]
  have H: "?H = Some 72" using main by blast
  have dates: "exampleDates (js ''2024-01-01T00:00:00Z'') = Some 1704067200000"
    "exampleDates (js ''soon'') = None"
    by (simp_all add: exampleDates_def js_def)
  have urls: "batchNormUrl (url ?old) = js ''example.com/old''"
    "batchNormUrl (url ?new) = js ''example.com/new''"
    "batchNormUrl (url ?soon) = js ''example.com/soon''"
    by (simp_all add: datedItem_def example_batch_urls)
  have distinct_urls: "js ''example.com/old'' \<noteq> js ''example.com/new''"
    "js ''example.com/old'' \<noteq> js ''example.com/soon''"
    "js ''example.com/new'' \<noteq> js ''example.com/soon''"
    by (simp_all add: js_def)
  have old: "truthy (pubDate ?old) \<and> exampleDates (orEmpty (pubDate ?old)) = Some 1704067200000
      \<and> ?H = Some 72 \<and> (72::int) * 3600 * 1000 < 1704427200000 - 1704067200000"
    using H dates by (simp add: datedItem_def truthy_def orEmpty_def) (simp add: js_def)
  have a: "?old \<notin> set (dedupedItems ?R)"
    using main old by blast
  have new_undated: "pubDate ?new = None \<or> exampleDates (orEmpty (pubDate ?new)) = None"
    by (simp add: datedItem_def)
  have soon_undated: "pubDate ?soon = None \<or> exampleDates (orEmpty (pubDate ?soon)) = None"
    using dates by (simp add: datedItem_def orEmpty_def)
  have new_alone: "\<forall>j \<in> set ?items. batchNormUrl (url j) = batchNormUrl (url ?new) \<longrightarrow> j = ?new"
    using urls distinct_urls by auto
  have soon_alone: "\<forall>j \<in> set ?items. batchNormUrl (url j) = batchNormUrl (url ?soon) \<longrightarrow> j = ?soon"
    using urls distinct_urls by auto
  have b: "?new \<in> set (dedupedItems ?R)"
    using main new_undated new_alone emptyHistory_suppresses_nothing[of sha URL_simple ?new]
    by (meson list.set_intros)
  have c: "?soon \<in> set (dedupedItems ?R)"
    using main soon_undated soon_alone emptyHistory_suppresses_nothing[of sha URL_simple ?soon]
    by (meson list.set_intros)
  from a b c show "?old \<notin> set (dedupedItems ?R) \<and> ?new \<in> set (dedupedItems ?R)
      \<and> ?soon \<in> set (dedupedItems ?R)"
    by blast
qed

end
